theory Spec2Isabelle
  imports Complex_Main "HOL-Library.Sublist" "HOL-Library.AList"
begin

section \<open>JavaScript numbers\<close>

text \<open>
  The aggregation library \<^verbatim>\<open>src/utils/financialUtils.js\<close> computes on JavaScript Number
  values: IEEE 754 binary64 with the special values NaN, +Infinity and -Infinity. A finite
  number is represented by the real it denotes, and every arithmetic operator rounds its
  exact result to binary64 with \<open>fl\<close> (round to nearest, ties to even, gradual
  underflow, overflow to an infinity). The numbers of the program are the \<open>representable\<close>
  values of \<open>jsnum\<close>; what is proved for every \<open>jsnum\<close> holds for them, and every number
  in an example is one of them. Negative zero is identified with zero: the two are equal
  under \<^verbatim>\<open>===\<close> and under every comparison, and no function below divides by a zero
  that it has not tested first.
\<close>

datatype jsnum = NaN | PInf | NInf | Fin real

definition rne :: "real \<Rightarrow> int" where
  \<comment> \<open>nearest integer, a tie going to the even neighbour\<close>
  "rne x = (let f = \<lfloor>x\<rfloor>; d = x - of_int f in
            if d < 1 / 2 then f else if 1 / 2 < d then f + 1
            else if even f then f else f + 1)"

definition expo :: "real \<Rightarrow> int" where
  \<comment> \<open>exponent of the last place of the binary64 format at the magnitude of \<open>x\<close>:
      53 significant bits, and never below the subnormal spacing \<open>2 powi - 1074\<close>\<close>
  "expo x = max (\<lfloor>log 2 \<bar>x\<bar>\<rfloor> - 52) (- 1074)"

definition round_to_grid :: "real \<Rightarrow> real" where
  \<comment> \<open>the nearest multiple of the last place, before the overflow test\<close>
  "round_to_grid x =
     (if x = 0 then 0 else of_int (rne (x / 2 powi expo x)) * 2 powi expo x)"

definition overflow_bound :: real where
  "overflow_bound = 2 ^ 1024"

definition fl :: "real \<Rightarrow> jsnum" where
  "fl x = (let y = round_to_grid x in
           if overflow_bound \<le> y then PInf
           else if y \<le> - overflow_bound then NInf else Fin y)"

fun jsadd :: "jsnum \<Rightarrow> jsnum \<Rightarrow> jsnum" where
  "jsadd NaN _ = NaN"
| "jsadd _ NaN = NaN"
| "jsadd PInf NInf = NaN"
| "jsadd NInf PInf = NaN"
| "jsadd PInf _ = PInf"
| "jsadd _ PInf = PInf"
| "jsadd NInf _ = NInf"
| "jsadd _ NInf = NInf"
| "jsadd (Fin a) (Fin b) = fl (a + b)"

fun jsneg :: "jsnum \<Rightarrow> jsnum" where
  "jsneg NaN = NaN"
| "jsneg PInf = NInf"
| "jsneg NInf = PInf"
| "jsneg (Fin a) = Fin (- a)"

fun jssub :: "jsnum \<Rightarrow> jsnum \<Rightarrow> jsnum" where
  "jssub NaN _ = NaN"
| "jssub _ NaN = NaN"
| "jssub PInf PInf = NaN"
| "jssub NInf NInf = NaN"
| "jssub PInf _ = PInf"
| "jssub _ PInf = NInf"
| "jssub NInf _ = NInf"
| "jssub _ NInf = PInf"
| "jssub (Fin a) (Fin b) = fl (a - b)"

fun jsmul :: "jsnum \<Rightarrow> jsnum \<Rightarrow> jsnum" where
  "jsmul NaN _ = NaN"
| "jsmul _ NaN = NaN"
| "jsmul PInf PInf = PInf"
| "jsmul PInf NInf = NInf"
| "jsmul NInf PInf = NInf"
| "jsmul NInf NInf = PInf"
| "jsmul PInf (Fin b) = (if b = 0 then NaN else if 0 < b then PInf else NInf)"
| "jsmul NInf (Fin b) = (if b = 0 then NaN else if 0 < b then NInf else PInf)"
| "jsmul (Fin a) PInf = (if a = 0 then NaN else if 0 < a then PInf else NInf)"
| "jsmul (Fin a) NInf = (if a = 0 then NaN else if 0 < a then NInf else PInf)"
| "jsmul (Fin a) (Fin b) = fl (a * b)"

fun jsdiv :: "jsnum \<Rightarrow> jsnum \<Rightarrow> jsnum" where
  "jsdiv NaN _ = NaN"
| "jsdiv _ NaN = NaN"
| "jsdiv PInf PInf = NaN"
| "jsdiv PInf NInf = NaN"
| "jsdiv NInf PInf = NaN"
| "jsdiv NInf NInf = NaN"
| "jsdiv PInf (Fin b) = (if 0 \<le> b then PInf else NInf)"
| "jsdiv NInf (Fin b) = (if 0 \<le> b then NInf else PInf)"
| "jsdiv (Fin a) PInf = Fin 0"
| "jsdiv (Fin a) NInf = Fin 0"
| "jsdiv (Fin a) (Fin b) =
     (if b = 0 then (if a = 0 then NaN else if 0 < a then PInf else NInf)
      else fl (a / b))"

text \<open>The relational operators: every comparison with NaN is false.\<close>

fun jle :: "jsnum \<Rightarrow> jsnum \<Rightarrow> bool" where
  "jle NaN _ = False"
| "jle _ NaN = False"
| "jle NInf _ = True"
| "jle _ PInf = True"
| "jle PInf _ = False"
| "jle _ NInf = False"
| "jle (Fin a) (Fin b) = (a \<le> b)"

fun jlt :: "jsnum \<Rightarrow> jsnum \<Rightarrow> bool" where
  "jlt NaN _ = False"
| "jlt _ NaN = False"
| "jlt PInf _ = False"
| "jlt _ NInf = False"
| "jlt NInf _ = True"
| "jlt _ PInf = True"
| "jlt (Fin a) (Fin b) = (a < b)"

definition jge :: "jsnum \<Rightarrow> jsnum \<Rightarrow> bool" where
  "jge a b = jle b a"

definition jgt :: "jsnum \<Rightarrow> jsnum \<Rightarrow> bool" where
  "jgt a b = jlt b a"

definition min_subnormal :: real where
  \<comment> \<open>the smallest positive binary64 value; every binary64 value is a multiple of it\<close>
  "min_subnormal = 2 powi (- 1074)"

definition representable :: "jsnum \<Rightarrow> bool" where
  \<comment> \<open>a binary64 value: a special value, or a real that rounding leaves unchanged\<close>
  "representable t = (case t of Fin y \<Rightarrow> fl y = Fin y | _ \<Rightarrow> True)"

definition strict_eq_num :: "jsnum \<Rightarrow> jsnum \<Rightarrow> bool" where
  \<comment> \<open>\<^verbatim>\<open>===\<close> on two numbers\<close>
  "strict_eq_num a b = (a \<noteq> NaN \<and> a = b)"

fun Math_min :: "jsnum \<Rightarrow> jsnum \<Rightarrow> jsnum" where
  "Math_min NaN _ = NaN"
| "Math_min _ NaN = NaN"
| "Math_min a b = (if jle a b then a else b)"


section \<open>Budget calculations\<close>

text \<open>
  \<^verbatim>\<open>
  export const calculateBudgetUtilization = (spent, budget) => {
    if (budget === 0) return 0;
    return Math.min((spent / budget) * 100, 100);
  };
  export const getBudgetStatus = (spent, budget) => {
    const utilization = calculateBudgetUtilization(spent, budget);
    if (utilization >= 100) return 'exceeded';
    if (utilization >= 90) return 'warning';
    if (utilization >= 75) return 'caution';
    return 'healthy';
  };
  \<close>
  Both arguments are numbers.
\<close>

definition calculateBudgetUtilization :: "jsnum \<Rightarrow> jsnum \<Rightarrow> jsnum" where
  "calculateBudgetUtilization spent budget =
     (if strict_eq_num budget (Fin 0) then Fin 0
      else Math_min (jsmul (jsdiv spent budget) (Fin 100)) (Fin 100))"

definition getBudgetStatus :: "jsnum \<Rightarrow> jsnum \<Rightarrow> string" where
  "getBudgetStatus spent budget =
     (let utilization = calculateBudgetUtilization spent budget in
      if jge utilization (Fin 100) then ''exceeded''
      else if jge utilization (Fin 90) then ''warning''
      else if jge utilization (Fin 75) then ''caution''
      else ''healthy'')"

text \<open>
  The utilization formula as the specification words it, \<open>min(spent/budget*100, 100)\<close>,
  in JavaScript arithmetic.
\<close>

definition spec_utilization :: "jsnum \<Rightarrow> jsnum \<Rightarrow> jsnum" where
  "spec_utilization spent budget =
     Math_min (jsmul (jsdiv spent budget) (Fin 100)) (Fin 100)"

text \<open>The severity order of the specification: healthy < caution < warning < exceeded.\<close>

definition severity :: "string \<Rightarrow> nat" where
  "severity s = (if s = ''exceeded'' then 3 else if s = ''warning'' then 2
                 else if s = ''caution'' then 1 else 0)"


text \<open>The threshold cascade of \<open>getBudgetStatus\<close>, applied to a given utilization.\<close>

definition status_of :: "jsnum \<Rightarrow> string" where
  "status_of u = (if jge u (Fin 100) then ''exceeded''
      else if jge u (Fin 90) then ''warning''
      else if jge u (Fin 75) then ''caution''
      else ''healthy'')"

definition finite_negative :: "jsnum \<Rightarrow> bool" where
  "finite_negative b = (case b of Fin r \<Rightarrow> r < 0 | _ \<Rightarrow> False)"


section \<open>JavaScript values, truthiness and \<open>parseFloat\<close>\<close>

text \<open>
  The fields of a record hold primitive values; a missing field reads as \<^verbatim>\<open>undefined\<close>.
  Strings are ASCII. \<open>truthy\<close> is ToBoolean, which decides \<^verbatim>\<open>!v\<close> and \<^verbatim>\<open>v || d\<close>.
\<close>

datatype jsval = JUndefined | JNull | JBool bool | JNum jsnum | JStr string

datatype js_error = TypeError

fun truthy :: "jsval \<Rightarrow> bool" where
  "truthy JUndefined = False"
| "truthy JNull = False"
| "truthy (JBool b) = b"
| "truthy (JNum n) = (n \<noteq> NaN \<and> n \<noteq> Fin 0)"
| "truthy (JStr s) = (s \<noteq> [])"

definition or_else :: "jsval \<Rightarrow> jsval \<Rightarrow> jsval" where
  \<comment> \<open>\<^verbatim>\<open>v || d\<close>\<close>
  "or_else v d = (if truthy v then v else d)"

definition is_space :: "char \<Rightarrow> bool" where
  \<comment> \<open>the ASCII white space and line terminators: TAB, LF, VT, FF, CR, SP\<close>
  "is_space c = ((of_char c :: nat) \<in> {9, 10, 11, 12, 13, 32})"

definition is_digit :: "char \<Rightarrow> bool" where
  "is_digit c = (48 \<le> (of_char c :: nat) \<and> (of_char c :: nat) \<le> 57)"

definition digits_val :: "string \<Rightarrow> nat" where
  "digits_val ds = foldl (\<lambda>a c. 10 * a + (of_char c - 48)) 0 ds"

definition trim :: "string \<Rightarrow> string" where
  \<comment> \<open>\<^verbatim>\<open>String.prototype.trim\<close>\<close>
  "trim s = rev (dropWhile is_space (rev (dropWhile is_space s)))"

text \<open>
  \<^verbatim>\<open>parseFloat\<close> skips leading white space and reads the longest prefix that is a
  decimal literal: an optional sign, then \<^verbatim>\<open>Infinity\<close> or digits with an optional
  fraction and an optional exponent (an exponent indicator without digits is not part of
  the literal). Without such a prefix the result is NaN. The exact decimal value is
  rounded to binary64.
\<close>

definition parse_exponent :: "string \<Rightarrow> int" where
  "parse_exponent r =
     (case r of
        [] \<Rightarrow> 0
      | c # t \<Rightarrow>
          if c = CHR ''e'' \<or> c = CHR ''E'' then
            (let neg = (t \<noteq> [] \<and> hd t = CHR ''-'');
                 t' = (if t \<noteq> [] \<and> (hd t = CHR ''-'' \<or> hd t = CHR ''+'') then tl t else t);
                 ds = takeWhile is_digit t'
             in if ds = [] then 0
                else if neg then - int (digits_val ds) else int (digits_val ds))
          else 0)"

definition parse_unsigned :: "string \<Rightarrow> jsnum" where
  "parse_unsigned s =
     (if take 8 s = ''Infinity'' then PInf
      else
        let ip = takeWhile is_digit s;
            r1 = dropWhile is_digit s;
            dot = (r1 \<noteq> [] \<and> hd r1 = CHR ''.'');
            fp = (if dot then takeWhile is_digit (tl r1) else []);
            r2 = (if dot then dropWhile is_digit (tl r1) else r1)
        in if ip = [] \<and> fp = [] then NaN
           else fl ((real (digits_val ip) + real (digits_val fp) / 10 ^ length fp)
                    * 10 powi parse_exponent r2))"

definition parseFloat_str :: "string \<Rightarrow> jsnum" where
  "parseFloat_str s =
     (case dropWhile is_space s of
        [] \<Rightarrow> NaN
      | c # r \<Rightarrow>
          if c = CHR ''-'' then jsneg (parse_unsigned r)
          else if c = CHR ''+'' then parse_unsigned r
          else parse_unsigned (c # r))"

text \<open>
  \<^verbatim>\<open>parseFloat(v)\<close> first converts \<open>v\<close> to a string. The strings of \<^verbatim>\<open>undefined\<close>,
  \<^verbatim>\<open>null\<close>, \<^verbatim>\<open>true\<close> and \<^verbatim>\<open>false\<close> have no numeric prefix; the string of a number
  reads back as that number.
\<close>

fun parseFloat :: "jsval \<Rightarrow> jsnum" where
  "parseFloat JUndefined = NaN"
| "parseFloat JNull = NaN"
| "parseFloat (JBool b) = NaN"
| "parseFloat (JNum n) = n"
| "parseFloat (JStr s) = parseFloat_str s"


section \<open>Records\<close>

text \<open>
  An expense record has the fields \<^verbatim>\<open>amount\<close>, \<^verbatim>\<open>category\<close> and \<^verbatim>\<open>date\<close> read by
  the library; a budget record has \<^verbatim>\<open>amount\<close> and \<^verbatim>\<open>category\<close>. Any further field
  (id, description, ...) travels in the extension part of the record.
\<close>

record entry =
  amount :: jsval
  category :: jsval

record expense = entry +
  date :: jsval


section \<open>Expense calculations\<close>

text \<open>
  \<^verbatim>\<open>
  export const calculateTotalExpenses = (expenses) => {
    return expenses.reduce((total, expense) => total + parseFloat(expense.amount || 0), 0);
  };
  \<close>
\<close>

definition calculateTotalExpenses :: "'a entry_scheme list \<Rightarrow> jsnum" where
  "calculateTotalExpenses expenses =
     foldl (\<lambda>total expense.
              jsadd total (parseFloat (or_else (amount expense) (JNum (Fin 0)))))
       (Fin 0) expenses"

text \<open>
  The reading of the specification: an amount that is missing or does not parse as a
  number counts as 0, every other amount as its number.
\<close>

definition spec_amount :: "jsval \<Rightarrow> jsnum" where
  "spec_amount v = (if \<not> truthy v \<or> parseFloat v = NaN then Fin 0 else parseFloat v)"

definition spec_total :: "'a entry_scheme list \<Rightarrow> jsnum" where
  "spec_total expenses = foldl (\<lambda>total expense. jsadd total (spec_amount (amount expense))) (Fin 0) expenses"


section \<open>Data validation\<close>

text \<open>
  \<^verbatim>\<open>
  export const validateExpense = (expense) => {
    const errors = [];
    if (!expense.amount || isNaN(parseFloat(expense.amount))) {
      errors.push('Invalid amount');
    }
    if (parseFloat(expense.amount) <= 0) {
      errors.push('Amount must be positive');
    }
    if (!expense.category || expense.category.trim() === '') {
      errors.push('Category is required');
    }
    if (!expense.date) {
      errors.push('Date is required');
    }
    return { isValid: errors.length === 0, errors };
  };
  \<close>
  \<^verbatim>\<open>validateBudget\<close> is the same without the date test and with its own messages.
  A truthy category that is not a string has no \<^verbatim>\<open>trim\<close> method, and calling it
  raises a TypeError.
\<close>

record validation =
  isValid :: bool
  errors :: "string list"

fun category_blank :: "jsval \<Rightarrow> js_error + bool" where
  \<comment> \<open>\<^verbatim>\<open>!c || c.trim() === ''\<close>\<close>
  "category_blank (JStr s) = Inr (s = [] \<or> trim s = [])"
| "category_blank v = (if truthy v then Inl TypeError else Inr True)"

definition push_if :: "bool \<Rightarrow> string \<Rightarrow> string list \<Rightarrow> string list" where
  \<comment> \<open>\<^verbatim>\<open>if (c) errors.push(m)\<close>\<close>
  "push_if c m errs = (if c then errs @ [m] else errs)"

definition validateExpense :: "'a expense_scheme \<Rightarrow> js_error + validation" where
  "validateExpense expense =
     (let errs = [];
          errs = push_if (\<not> truthy (amount expense) \<or> parseFloat (amount expense) = NaN)
                   ''Invalid amount'' errs;
          errs = push_if (jle (parseFloat (amount expense)) (Fin 0))
                   ''Amount must be positive'' errs
      in case category_blank (category expense) of
           Inl err \<Rightarrow> Inl err
         | Inr blank \<Rightarrow>
             (let errs = push_if blank ''Category is required'' errs;
                  errs = push_if (\<not> truthy (date expense)) ''Date is required'' errs
              in Inr \<lparr>isValid = (length errs = 0), errors = errs\<rparr>))"

definition validateBudget :: "'a entry_scheme \<Rightarrow> js_error + validation" where
  "validateBudget budget =
     (let errs = [];
          errs = push_if (\<not> truthy (amount budget) \<or> parseFloat (amount budget) = NaN)
                   ''Invalid budget amount'' errs;
          errs = push_if (jle (parseFloat (amount budget)) (Fin 0))
                   ''Budget must be positive'' errs
      in case category_blank (category budget) of
           Inl err \<Rightarrow> Inl err
         | Inr blank \<Rightarrow>
             (let errs = push_if blank ''Category is required'' errs
              in Inr \<lparr>isValid = (length errs = 0), errors = errs\<rparr>))"

fun string_or_absent :: "jsval \<Rightarrow> bool" where
  \<comment> \<open>a category the data model allows: a string, or nothing (a falsy value)\<close>
  "string_or_absent (JStr s) = True"
| "string_or_absent v = (\<not> truthy v)"


text \<open>The messages of the two validators, in the order of their tests.\<close>

definition expense_messages :: "string list" where
  "expense_messages =
     [''Invalid amount'', ''Amount must be positive'', ''Category is required'',
      ''Date is required'']"

definition budget_messages :: "string list" where
  "budget_messages =
     [''Invalid budget amount'', ''Budget must be positive'', ''Category is required'']"


section \<open>Statistics\<close>

text \<open>
  \<^verbatim>\<open>
  export const calculateMedianExpense = (expenses) => {
    if (expenses.length === 0) return 0;
    const sorted = expenses.map(e => parseFloat(e.amount)).sort((a, b) => a - b);
    const mid = Math.floor(sorted.length / 2);
    return sorted.length % 2 === 0 ? (sorted[mid - 1] + sorted[mid]) / 2 : sorted[mid];
  };
  \<close>
  \<^verbatim>\<open>Array.prototype.sort\<close> calls the comparator, reads a NaN result as +0, and is
  stable; here it is the stable insertion sort under that comparator. (When the comparator
  is not a consistent order, as with a NaN among the amounts, the language leaves the
  resulting order to the implementation.) The two indices are always in range: \<open>mid\<close> is
  below the length of a non-empty array, and \<open>mid - 1\<close> is read only for an even,
  hence positive, \<open>mid\<close>.
\<close>

definition sortCompare :: "jsnum \<Rightarrow> jsnum \<Rightarrow> jsnum" where
  \<comment> \<open>the comparator \<^verbatim>\<open>(a, b) => a - b\<close> as \<^verbatim>\<open>sort\<close> reads it\<close>
  "sortCompare a b = (let v = jssub a b in if v = NaN then Fin 0 else v)"

fun insert_sorted :: "jsnum \<Rightarrow> jsnum list \<Rightarrow> jsnum list" where
  \<comment> \<open>\<open>x\<close> goes behind the elements it compares greater than, and before its equals\<close>
  "insert_sorted x [] = [x]"
| "insert_sorted x (y # ys) =
     (if jgt (sortCompare x y) (Fin 0) then y # insert_sorted x ys else x # y # ys)"

definition array_sort :: "jsnum list \<Rightarrow> jsnum list" where
  "array_sort xs = foldr insert_sorted xs []"

definition calculateMedianExpense :: "'a entry_scheme list \<Rightarrow> jsnum" where
  "calculateMedianExpense expenses =
     (if length expenses = 0 then Fin 0
      else
        let sorted = array_sort (map (\<lambda>e. parseFloat (amount e)) expenses);
            mid = length sorted div 2
        in if length sorted mod 2 = 0
           then jsdiv (jsadd (sorted ! (mid - 1)) (sorted ! mid)) (Fin 2)
           else sorted ! mid)"

text \<open>
  The median as the specification words it, over the real values \<open>rs\<close> of the amounts
  and with the library's ascending \<open>sort\<close>.
\<close>

definition spec_median :: "real list \<Rightarrow> jsnum" where
  "spec_median rs =
     (if rs = [] then Fin 0
      else
        let s = sort rs; n = length s
        in if even n then jsdiv (jsadd (Fin (s ! (n div 2 - 1))) (Fin (s ! (n div 2)))) (Fin 2)
           else Fin (s ! (n div 2)))"

text \<open>A record whose amount reads as the finite number \<open>r\<close>.\<close>

definition numeric_amount :: "'a entry_scheme \<Rightarrow> real \<Rightarrow> bool" where
  "numeric_amount e r = (parseFloat (amount e) = Fin r \<and> fl r = Fin r)"


section \<open>Objects used as dictionaries\<close>

text \<open>
  The grouping functions accumulate into a plain object \<^verbatim>\<open>{}\<close>. Its own properties
  are an association list in insertion order, which is the order of \<^verbatim>\<open>Object.entries\<close>
  for keys that are not array indices. A read \<^verbatim>\<open>acc[key]\<close> of a key that is not an own
  property falls through to \<^verbatim>\<open>Object.prototype\<close>, whose properties are all truthy
  functions and objects.
\<close>

type_synonym 'v js_object = "(string \<times> 'v) list"

definition Object_prototype_keys :: "string list" where
  "Object_prototype_keys =
     [''constructor'', ''hasOwnProperty'', ''isPrototypeOf'', ''propertyIsEnumerable'',
      ''toLocaleString'', ''toString'', ''valueOf'', ''__proto__'', ''__defineGetter__'',
      ''__defineSetter__'', ''__lookupGetter__'', ''__lookupSetter__'']"

datatype 'v property = Own 'v | Inherited | Absent

definition get_property :: "'v js_object \<Rightarrow> string \<Rightarrow> 'v property" where
  "get_property obj key =
     (case map_of obj key of
        Some v \<Rightarrow> Own v
      | None \<Rightarrow> if key \<in> set Object_prototype_keys then Inherited else Absent)"

text \<open>\<^verbatim>\<open>Array.prototype.reduce\<close> with a callback that may raise.\<close>

fun reduce_result :: "('acc \<Rightarrow> 'e \<Rightarrow> js_error + 'acc) \<Rightarrow> 'acc \<Rightarrow> 'e list \<Rightarrow> js_error + 'acc" where
  "reduce_result f acc [] = Inr acc"
| "reduce_result f acc (x # xs) =
     (case f acc x of Inl err \<Rightarrow> Inl err | Inr acc' \<Rightarrow> reduce_result f acc' xs)"

text \<open>
  Converting a value to a string, as a template literal and a property access do. The
  decimal rendering of a finite number is the parameter \<open>ts\<close> of the functions below;
  on the integers that JavaScript prints without an exponent it is \<open>integer_string\<close>.
\<close>

fun nat_digits :: "nat \<Rightarrow> string" where
  "nat_digits n =
     (if n < 10 then [''0123456789'' ! n]
      else nat_digits (n div 10) @ [''0123456789'' ! (n mod 10)])"

definition integer_string :: "real \<Rightarrow> string" where
  "integer_string r =
     (if r < 0 then CHR ''-'' # nat_digits (nat \<lfloor>- r\<rfloor>) else nat_digits (nat \<lfloor>r\<rfloor>))"

fun js_toString :: "(real \<Rightarrow> string) \<Rightarrow> jsval \<Rightarrow> string" where
  "js_toString ts JUndefined = ''undefined''"
| "js_toString ts JNull = ''null''"
| "js_toString ts (JBool b) = (if b then ''true'' else ''false'')"
| "js_toString ts (JNum NaN) = ''NaN''"
| "js_toString ts (JNum PInf) = ''Infinity''"
| "js_toString ts (JNum NInf) = ''-Infinity''"
| "js_toString ts (JNum (Fin r)) = ts r"
| "js_toString ts (JStr s) = s"


section \<open>Grouping by category\<close>

text \<open>
  \<^verbatim>\<open>
  export const groupExpensesByCategory = (expenses) => {
    return expenses.reduce((acc, expense) => {
      const category = expense.category || 'Uncategorized';
      if (!acc[category]) {
        acc[category] = { total: 0, count: 0, expenses: [] };
      }
      acc[category].total += parseFloat(expense.amount || 0);
      acc[category].count += 1;
      acc[category].expenses.push(expense);
      return acc;
    }, {});
  };
  \<close>
  For a category named like a property of \<^verbatim>\<open>Object.prototype\<close> the test
  \<^verbatim>\<open>!acc[category]\<close> is false, no group is created, and \<^verbatim>\<open>.expenses.push\<close> on the
  inherited value raises a TypeError.
\<close>

record 'e category_group =
  total :: jsnum
  count :: nat
  expenses :: "'e list"

definition category_key :: "(real \<Rightarrow> string) \<Rightarrow> 'a entry_scheme \<Rightarrow> string" where
  "category_key ts expense = js_toString ts (or_else (category expense) (JStr ''Uncategorized''))"

definition add_expense :: "'a entry_scheme category_group \<Rightarrow> 'a entry_scheme \<Rightarrow> 'a entry_scheme category_group" where
  "add_expense g expense =
     \<lparr>total = jsadd (total g) (parseFloat (or_else (amount expense) (JNum (Fin 0)))),
      count = count g + 1,
      expenses = expenses g @ [expense]\<rparr>"

definition group_step ::
  "(real \<Rightarrow> string) \<Rightarrow> 'a entry_scheme category_group js_object \<Rightarrow> 'a entry_scheme
     \<Rightarrow> js_error + 'a entry_scheme category_group js_object" where
  "group_step ts acc expense =
     (let key = category_key ts expense in
      case get_property acc key of
        Absent \<Rightarrow>
          Inr (acc @ [(key, add_expense \<lparr>total = Fin 0, count = 0, expenses = []\<rparr> expense)])
      | Own g \<Rightarrow> Inr (AList.update key (add_expense g expense) acc)
      | Inherited \<Rightarrow> Inl TypeError)"

definition groupExpensesByCategory ::
  "(real \<Rightarrow> string) \<Rightarrow> 'a entry_scheme list
     \<Rightarrow> js_error + 'a entry_scheme category_group js_object" where
  "groupExpensesByCategory ts list = reduce_result (group_step ts) [] list"

text \<open>The sum over all categories of the group totals, in property order.\<close>

definition sum_of_totals :: "'e category_group js_object \<Rightarrow> jsnum" where
  "sum_of_totals grouped = foldl jsadd (Fin 0) (map (\<lambda>(key, g). total g) grouped)"

text \<open>
  The shape both reducers share: create the entry of a key if the object has none, then
  change it. \<open>groups_of\<close> is the object this builds from a list: one entry per distinct
  key, in the order of first occurrence, made from the records of that key.
\<close>

definition upsert ::
  "string \<Rightarrow> 'g \<Rightarrow> ('g \<Rightarrow> 'g) \<Rightarrow> 'g js_object \<Rightarrow> js_error + 'g js_object" where
  "upsert key init f obj =
     (case get_property obj key of
        Absent \<Rightarrow> Inr (obj @ [(key, f init)])
      | Own g \<Rightarrow> Inr (AList.update key (f g) obj)
      | Inherited \<Rightarrow> Inl TypeError)"

definition first_keys :: "string list \<Rightarrow> string list" where
  "first_keys ks = rev (remdups (rev ks))"

definition groups_of ::
  "('e \<Rightarrow> string) \<Rightarrow> ('e list \<Rightarrow> 'g) \<Rightarrow> 'e list \<Rightarrow> 'g js_object" where
  "groups_of key mk xs =
     map (\<lambda>k. (k, mk (filter (\<lambda>e. key e = k) xs))) (first_keys (map key xs))"

text \<open>Amounts that are integers, and their integer values.\<close>

definition amount_int :: "jsval \<Rightarrow> int" where
  "amount_int v = (case parseFloat (or_else v (JNum (Fin 0))) of Fin r \<Rightarrow> \<lfloor>r\<rfloor> | _ \<Rightarrow> 0)"

definition integer_amount :: "jsval \<Rightarrow> bool" where
  "integer_amount v = (parseFloat (or_else v (JNum (Fin 0))) = Fin (of_int (amount_int v)))"

definition empty_group :: "'e category_group" where
  "empty_group = \<lparr>total = Fin 0, count = 0, expenses = []\<rparr>"

section \<open>Recurring expenses\<close>

text \<open>
  \<^verbatim>\<open>
  export const identifyRecurringExpenses = (expenses, threshold = 3) => {
    const grouped = expenses.reduce((acc, expense) => {
      const key = `${expense.category}-${expense.amount}`;
      if (!acc[key]) {
        acc[key] = [];
      }
      acc[key].push(expense);
      return acc;
    }, {});
    return Object.entries(grouped)
      .filter(([_, items]) => items.length >= threshold)
      .map(([key, items]) => ({
        category: items[0].category,
        amount: items[0].amount,
        frequency: items.length,
        expenses: items,
      }));
  };
  \<close>
  The field \<^verbatim>\<open>expenses\<close> of a reported pattern is \<open>expenses'\<close> here.
\<close>

record 'e recurring = entry +
  frequency :: nat
  expenses' :: "'e list"

definition recurring_key :: "(real \<Rightarrow> string) \<Rightarrow> 'a entry_scheme \<Rightarrow> string" where
  "recurring_key ts expense =
     js_toString ts (category expense) @ ''-'' @ js_toString ts (amount expense)"

definition recurring_step ::
  "(real \<Rightarrow> string) \<Rightarrow> 'a entry_scheme list js_object \<Rightarrow> 'a entry_scheme
     \<Rightarrow> js_error + 'a entry_scheme list js_object" where
  "recurring_step ts acc expense =
     (let key = recurring_key ts expense in
      case get_property acc key of
        Absent \<Rightarrow> Inr (acc @ [(key, [] @ [expense])])
      | Own items \<Rightarrow> Inr (AList.update key (items @ [expense]) acc)
      | Inherited \<Rightarrow> Inl TypeError)"

definition recurring_pattern ::
  "string \<times> 'a entry_scheme list \<Rightarrow> js_error + 'a entry_scheme recurring" where
  "recurring_pattern kv =
     (case kv of (key, items) \<Rightarrow>
        (case items of
           [] \<Rightarrow> Inl TypeError
         | first # _ \<Rightarrow>
             Inr \<lparr>amount = amount first, category = category first,
                  frequency = length items, expenses' = items\<rparr>))"

fun map_result :: "('a \<Rightarrow> js_error + 'b) \<Rightarrow> 'a list \<Rightarrow> js_error + 'b list" where
  "map_result f [] = Inr []"
| "map_result f (x # xs) =
     (case f x of
        Inl err \<Rightarrow> Inl err
      | Inr y \<Rightarrow> (case map_result f xs of Inl err \<Rightarrow> Inl err | Inr ys \<Rightarrow> Inr (y # ys)))"

definition identifyRecurringExpenses ::
  "(real \<Rightarrow> string) \<Rightarrow> 'a entry_scheme list \<Rightarrow> jsnum
     \<Rightarrow> js_error + 'a entry_scheme recurring list" where
  "identifyRecurringExpenses ts list threshold =
     (case reduce_result (recurring_step ts) [] list of
        Inl err \<Rightarrow> Inl err
      | Inr grouped \<Rightarrow>
          map_result recurring_pattern
            (filter (\<lambda>(key, items). jge (Fin (real (length items))) threshold) grouped))"

text \<open>The pattern reported for a non-empty group, and the (category, amount) pair of a record.\<close>

definition pattern_of :: "'a entry_scheme list \<Rightarrow> 'a entry_scheme recurring" where
  "pattern_of items =
     \<lparr>amount = amount (hd items), category = category (hd items),
      frequency = length items, expenses' = items\<rparr>"

definition pair_of :: "'a entry_scheme \<Rightarrow> jsval \<times> jsval" where
  "pair_of e = (category e, amount e)"

text \<open>
  The categories of the data model (food, transport, shopping, entertainment, bills,
  health, salary, freelance, investment, other) are strings without a hyphen.
\<close>

fun hyphen_free :: "jsval \<Rightarrow> bool" where
  "hyphen_free (JStr s) = (CHR ''-'' \<notin> set s)"
| "hyphen_free v = False"


section \<open>Filtering by date range\<close>

text \<open>
  \<^verbatim>\<open>
  export const filterExpensesByDateRange = (expenses, startDate, endDate) => {
    const start = new Date(startDate).setHours(0, 0, 0, 0);
    const end = new Date(endDate).setHours(23, 59, 59, 999);
    return expenses.filter(expense => {
      const expenseDate = new Date(expense.date).getTime();
      return expenseDate >= start && expenseDate <= end;
    });
  };
  \<close>
  A time value is a whole number of milliseconds since the epoch, or NaN for an invalid
  date (\<open>None\<close> here). The functions below are the abstract operations of the language
  definition that \<^verbatim>\<open>new Date(v)\<close> and \<^verbatim>\<open>Date.prototype.setHours\<close> are made of.
\<close>

definition msPerDay :: int where
  "msPerDay = 86400000"



definition Day :: "int \<Rightarrow> int" where
  "Day t = t div msPerDay"



text \<open>
  The local time zone is the parameter \<open>LocalTZA\<close>, the operation of that name of the
  language definition: \<open>LocalTZA t True\<close> is the offset from UTC, in milliseconds, in
  effect at the instant \<open>t\<close>, and \<open>LocalTZA t False\<close> is the offset with which the local
  time \<open>t\<close> is read. The offset changes at a daylight-saving transition, so the two
  conversions use the offset at their own argument.
\<close>

type_synonym zone = "int \<Rightarrow> bool \<Rightarrow> int"

definition LocalTime :: "zone \<Rightarrow> int \<Rightarrow> int" where
  "LocalTime LocalTZA t = t + LocalTZA t True"

definition UTC :: "zone \<Rightarrow> int \<Rightarrow> int" where
  "UTC LocalTZA t = t - LocalTZA t False"





text \<open>
  The local calendar day of an instant (as a day number), and the instants that the
  first and the last millisecond of that day, 00:00:00.000 and 23:59:59.999 on the local
  clock, are read as.
\<close>

definition local_day :: "zone \<Rightarrow> int \<Rightarrow> int" where
  "local_day LocalTZA t = Day (LocalTime LocalTZA t)"




text \<open>
  In a zone of \<open>whole_days\<close> every local calendar day is one interval of instants, from
  the instant its 00:00:00.000 is read as to the instant its 23:59:59.999 is read as.
\<close>

definition whole_days :: "zone \<Rightarrow> bool" where
  "whole_days LocalTZA \<longleftrightarrow>
     (\<forall>d t. (UTC LocalTZA (d * msPerDay) \<le> t \<longleftrightarrow> d \<le> local_day LocalTZA t) \<and>
            (t \<le> UTC LocalTZA (d * msPerDay + (msPerDay - 1)) \<longleftrightarrow> local_day LocalTZA t \<le> d))"

text \<open>
  Two kinds of zone. A zone with a fixed offset; and a zone whose offset changes once,
  at the instant \<open>T\<close>, from \<open>before\<close> to \<open>after\<close>: a local time that the change skips or
  repeats is read with the offset before the change. New York around 2024-03-10 is
  \<open>one_transition 1710054000000 (- 18000000) (- 14400000)\<close>.
\<close>

definition fixed_offset :: "int \<Rightarrow> zone" where
  "fixed_offset c t isUTC = c"








section \<open>Rounding to binary64\<close>

text \<open>
  Rounding is monotone, fixes zero, never produces NaN, and is exact on every
  \<open>m * 2 powi e\<close> with \<open>\<bar>m\<bar> < 2 ^ 53\<close> inside the exponent range.
\<close>

lemma rne_of_int [simp]: "rne (of_int n) = n"
  by (simp add: rne_def)

lemma rne_0 [simp]: "rne 0 = 0"
  by (simp add: rne_def)

lemma round_to_grid_eq: "round_to_grid x = of_int (rne (x / 2 powi expo x)) * 2 powi expo x"
  by (simp add: round_to_grid_def)

lemma rne_lower: "\<lfloor>x\<rfloor> \<le> rne x"
  by (simp add: rne_def Let_def)

lemma rne_upper: "rne x \<le> \<lfloor>x\<rfloor> + 1"
  by (simp add: rne_def Let_def)

lemma rne_mono:
  assumes "x \<le> y"
  shows "rne x \<le> rne y"
proof (cases "\<lfloor>x\<rfloor> < \<lfloor>y\<rfloor>")
  case True
  then show ?thesis
    using rne_lower [of y] rne_upper [of x] by linarith
next
  case False
  then have "\<lfloor>x\<rfloor> = \<lfloor>y\<rfloor>"
    using floor_mono [OF assms] by simp
  then show ?thesis
    using assms by (auto simp: rne_def Let_def)
qed

lemma rne_minus: "rne (- x) = - rne x"
proof (cases "x = of_int \<lfloor>x\<rfloor>")
  case True
  then obtain n where "x = of_int n" ..
  then have "- x = of_int (- n)"
    by simp
  then show ?thesis
    using \<open>x = of_int n\<close> by (simp only: rne_of_int)
next
  case False
  then have "\<lceil>x\<rceil> = \<lfloor>x\<rfloor> + 1"
    by (simp add: ceiling_altdef)
  then have f: "\<lfloor>- x\<rfloor> = - \<lfloor>x\<rfloor> - 1"
    by (simp add: ceiling_def)
  show ?thesis
    unfolding rne_def Let_def f by auto
qed

lemma log2_bounds:
  assumes "0 < a"
  shows "2 powi \<lfloor>log 2 a\<rfloor> \<le> a" and "a < 2 powi (\<lfloor>log 2 a\<rfloor> + 1)"
proof -
  have "2 powr real_of_int \<lfloor>log 2 a\<rfloor> \<le> a \<and> a < 2 powr real_of_int (\<lfloor>log 2 a\<rfloor> + 1)"
    using floor_log_eq_powr_iff [of a 2 "\<lfloor>log 2 a\<rfloor>"] assms by simp
  then show "2 powi \<lfloor>log 2 a\<rfloor> \<le> a" and "a < 2 powi (\<lfloor>log 2 a\<rfloor> + 1)"
    by (simp_all only: powr_real_of_int' [of 2, simplified])
qed

lemma expo_minus [simp]: "expo (- x) = expo x"
  by (simp add: expo_def)

lemma expo_mono: "0 < x \<Longrightarrow> x \<le> y \<Longrightarrow> expo x \<le> expo y"
  unfolding expo_def by (intro max.mono floor_mono diff_mono order_refl log_mono) auto

lemma round_to_grid_minus: "round_to_grid (- x) = - round_to_grid x"
  by (simp add: round_to_grid_eq rne_minus)

lemma round_to_grid_upper:
  assumes "0 < x"
  shows "round_to_grid x \<le> 2 powi (expo x + 53)"
proof -
  have "x < 2 powi (\<lfloor>log 2 x\<rfloor> + 1)"
    using log2_bounds(2) [OF assms] .
  also have "\<dots> \<le> 2 powi (expo x + 53)"
    using assms by (intro power_int_increasing) (auto simp: expo_def)
  finally have "x / 2 powi expo x \<le> 2 powi (expo x + 53) / 2 powi expo x"
    by (simp add: divide_right_mono)
  also have "\<dots> = of_int (2 ^ 53)"
    by (simp add: power_int_add)
  finally have "rne (x / 2 powi expo x) \<le> rne (of_int (2 ^ 53))"
    by (rule rne_mono)
  then have "rne (x / 2 powi expo x) \<le> 2 ^ 53"
    by (simp only: rne_of_int)
  then have "real_of_int (rne (x / 2 powi expo x)) \<le> real_of_int (2 ^ 53)"
    by (simp only: of_int_le_iff)
  then have "real_of_int (rne (x / 2 powi expo x)) \<le> 2 ^ 53"
    by simp
  then have "round_to_grid x \<le> 2 ^ 53 * 2 powi expo x"
    unfolding round_to_grid_eq by (intro mult_right_mono) auto
  then show ?thesis
    by (simp add: power_int_add mult.commute)
qed

lemma round_to_grid_lower:
  assumes "0 < x" and "- 1074 < expo x"
  shows "2 powi (expo x + 52) \<le> round_to_grid x"
proof -
  have e: "expo x = \<lfloor>log 2 x\<rfloor> - 52"
    using assms by (auto simp: expo_def max_def split: if_splits)
  have "2 powi (expo x + 52) \<le> x"
    using log2_bounds(1) [OF assms(1)] by (simp add: e)
  then have "2 powi (expo x + 52) / 2 powi expo x \<le> x / 2 powi expo x"
    by (simp add: divide_right_mono)
  moreover have "2 powi (expo x + 52) / 2 powi expo x = real_of_int (2 ^ 52)"
    by (simp add: power_int_add)
  ultimately have "rne (of_int (2 ^ 52)) \<le> rne (x / 2 powi expo x)"
    by (intro rne_mono) simp
  then have "2 ^ 52 \<le> rne (x / 2 powi expo x)"
    by (simp only: rne_of_int)
  then have "real_of_int (2 ^ 52) \<le> real_of_int (rne (x / 2 powi expo x))"
    by (simp only: of_int_le_iff)
  then have "2 ^ 52 \<le> real_of_int (rne (x / 2 powi expo x))"
    by simp
  then have "2 ^ 52 * 2 powi expo x \<le> round_to_grid x"
    unfolding round_to_grid_eq by (intro mult_right_mono) auto
  then show ?thesis
    by (simp add: power_int_add mult.commute)
qed

lemma round_to_grid_nonneg: "0 \<le> x \<Longrightarrow> 0 \<le> round_to_grid x"
proof -
  assume "0 \<le> x"
  then have "rne (of_int 0) \<le> rne (x / 2 powi expo x)"
    by (intro rne_mono) simp
  then have "0 \<le> rne (x / 2 powi expo x)"
    by (simp only: rne_of_int)
  then show ?thesis
    by (simp add: round_to_grid_eq)
qed

lemma round_to_grid_mono_pos:
  assumes "0 < x" and "x \<le> y"
  shows "round_to_grid x \<le> round_to_grid y"
proof (cases "expo x = expo y")
  case True
  have "x / 2 powi expo y \<le> y / 2 powi expo y"
    using assms by (simp add: divide_right_mono)
  then have "rne (x / 2 powi expo y) \<le> rne (y / 2 powi expo y)"
    by (rule rne_mono)
  then show ?thesis
    unfolding round_to_grid_eq True by (intro mult_right_mono) auto
next
  case False
  then have lt: "expo x < expo y"
    using expo_mono [OF assms] by simp
  have "- 1074 \<le> expo x"
    by (simp add: expo_def)
  then have "- 1074 < expo y"
    using lt by simp
  then have "2 powi (expo y + 52) \<le> round_to_grid y"
    using assms by (intro round_to_grid_lower) auto
  moreover have "round_to_grid x \<le> 2 powi (expo x + 53)"
    using assms by (intro round_to_grid_upper)
  moreover have "(2::real) powi (expo x + 53) \<le> 2 powi (expo y + 52)"
    using lt by (intro power_int_increasing) auto
  ultimately show ?thesis
    by linarith
qed

lemma round_to_grid_mono:
  assumes "x \<le> y"
  shows "round_to_grid x \<le> round_to_grid y"
proof -
  consider "0 < x" | "x \<le> 0" "0 \<le> y" | "y < 0"
    using assms by linarith
  then show ?thesis
  proof cases
    case 1
    then show ?thesis using assms by (rule round_to_grid_mono_pos)
  next
    case 2
    then have "0 \<le> round_to_grid (- x)" and "0 \<le> round_to_grid y"
      by (simp_all add: round_to_grid_nonneg)
    then show ?thesis by (simp add: round_to_grid_minus)
  next
    case 3
    then have "round_to_grid (- y) \<le> round_to_grid (- x)"
      using assms by (intro round_to_grid_mono_pos) auto
    then show ?thesis by (simp add: round_to_grid_minus)
  qed
qed

lemma fl_mono: "x \<le> y \<Longrightarrow> jle (fl x) (fl y)"
  using round_to_grid_mono [of x y] by (auto simp: fl_def Let_def overflow_bound_def)


lemma round_to_grid_0 [simp]: "round_to_grid 0 = 0"
  by (simp add: round_to_grid_def)

lemma overflow_bound_pos: "0 < overflow_bound"
  by (simp add: overflow_bound_def)

lemma fl_0 [simp]: "fl 0 = Fin 0"
  using overflow_bound_pos by (simp add: fl_def)

lemma fl_not_NaN [simp]: "fl x \<noteq> NaN"
  by (simp add: fl_def Let_def)

lemma jle_fl_PInf [simp]: "jle (fl x) PInf"
  by (cases "fl x") simp_all

lemma jle_NInf_fl [simp]: "jle NInf (fl x)"
  by (cases "fl x") simp_all

lemma jle_refl_iff [simp]: "jle a a \<longleftrightarrow> a \<noteq> NaN"
  by (cases a) simp_all

lemma jle_trans: "jle a b \<Longrightarrow> jle b c \<Longrightarrow> jle a c"
  by (cases a; cases b; cases c) simp_all

lemma fl_nonpos: "x \<le> 0 \<Longrightarrow> jle (fl x) (Fin 0)"
  using fl_mono [of x 0] by simp

lemma fl_nonneg: "0 \<le> x \<Longrightarrow> jle (Fin 0) (fl x)"
  using fl_mono [of 0 x] by simp

lemma jsdiv_mono_pos:
  assumes "jle p q" and "0 < b"
  shows "jle (jsdiv p (Fin b)) (jsdiv q (Fin b))"
  using assms by (cases p; cases q) (simp_all add: fl_mono divide_right_mono)

lemma jsmul_100_mono:
  assumes "jle p q"
  shows "jle (jsmul p (Fin 100)) (jsmul q (Fin 100))"
  using assms by (cases p; cases q) (simp_all add: fl_mono)

lemma expo_lower: "- 1074 \<le> expo x"
  by (simp add: expo_def)

lemma expo_le:
  assumes "m \<noteq> 0" and "\<bar>m\<bar> < 2 ^ 53" and "- 1074 \<le> e"
  shows "expo (of_int m * 2 powi e) \<le> e"
proof -
  define a :: real where "a = \<bar>of_int m * 2 powi e\<bar>"
  have a: "a = \<bar>of_int m\<bar> * 2 powi e"
    by (simp add: a_def abs_mult)
  have pos: "0 < a"
    using assms(1) by (simp add: a)
  have "real_of_int \<bar>m\<bar> < real_of_int (2 ^ 53)"
    using assms(2) by (simp only: of_int_less_iff)
  then have "\<bar>real_of_int m\<bar> < 2 ^ 53"
    by simp
  then have "a < 2 ^ 53 * 2 powi e"
    unfolding a by (intro mult_strict_right_mono) auto
  also have "\<dots> = 2 powi (53 + e)"
    by (simp add: power_int_add)
  finally have up: "a < 2 powi (53 + e)" .
  have "\<lfloor>log 2 a\<rfloor> < 53 + e"
  proof (rule ccontr)
    assume "\<not> \<lfloor>log 2 a\<rfloor> < 53 + e"
    then have "(2::real) powi (53 + e) \<le> 2 powi \<lfloor>log 2 a\<rfloor>"
      by (intro power_int_increasing) auto
    then show False
      using log2_bounds(1) [OF pos] up by linarith
  qed
  then show ?thesis
    using assms(3) by (simp add: expo_def a_def)
qed

lemma round_to_grid_exact:
  assumes "expo (of_int m * 2 powi e) \<le> e"
  shows "round_to_grid (of_int m * 2 powi e) = of_int m * 2 powi e"
proof -
  define k where "k = expo (of_int m * 2 powi e)"
  have "of_int m * 2 powi e / 2 powi k = of_int m * (2::real) powi (e - k)"
    by (simp add: power_int_diff)
  also have "\<dots> = of_int m * 2 ^ nat (e - k)"
    using assms by (simp add: k_def power_int_def)
  also have "\<dots> = of_int (m * 2 ^ nat (e - k))"
    by simp
  finally have "rne (of_int m * 2 powi e / 2 powi k) = m * 2 ^ nat (e - k)"
    by (simp only: rne_of_int)
  then have "round_to_grid (of_int m * 2 powi e) = of_int (m * 2 ^ nat (e - k)) * 2 powi k"
    by (simp add: round_to_grid_eq k_def)
  also have "\<dots> = of_int m * ((2::real) powi (e - k) * 2 powi k)"
    using assms by (simp add: k_def power_int_def)
  also have "(2::real) powi (e - k) * 2 powi k = 2 powi e"
    by (simp add: power_int_diff)
  finally show ?thesis .
qed

lemma fl_exact:
  assumes "\<bar>m\<bar> < 2 ^ 53" and "- 1074 \<le> e"
    and "\<bar>of_int m * 2 powi e\<bar> < overflow_bound"
  shows "fl (of_int m * 2 powi e) = Fin (of_int m * 2 powi e)"
proof (cases "m = 0")
  case True
  then show ?thesis by simp
next
  case False
  then have "round_to_grid (of_int m * 2 powi e) = of_int m * 2 powi e"
    using assms by (intro round_to_grid_exact expo_le)
  then show ?thesis
    using assms(3) by (auto simp: fl_def Let_def abs_less_iff)
qed

lemma fl_of_int:
  assumes "\<bar>n\<bar> < 2 ^ 53"
  shows "fl (of_int n) = Fin (of_int n)"
proof -
  have "real_of_int \<bar>n\<bar> < real_of_int (2 ^ 53)"
    using assms by (simp only: of_int_less_iff)
  then have "\<bar>real_of_int n\<bar> < overflow_bound"
    by (simp add: overflow_bound_def)
  then show ?thesis
    using fl_exact [of n 0] assms by simp
qed

lemma fl_numeral [simp]:
  "\<bar>numeral k :: int\<bar> < 2 ^ 53 \<Longrightarrow> fl (numeral k) = Fin (numeral k)"
  using fl_of_int [of "numeral k"] by simp

lemma fl_1 [simp]: "fl 1 = Fin 1"
  using fl_of_int [of 1] by simp

lemma fl_three_quarters: "fl (3 / 4) = Fin (3 / 4)"
  using fl_exact [of 3 "- 2"] by (simp add: overflow_bound_def)


subsection \<open>Rounding is idempotent\<close>

lemma rne_scaled_upper:
  assumes "0 < x"
  shows "rne (x / 2 powi expo x) \<le> 2 ^ 53"
proof -
  have "x < 2 powi (\<lfloor>log 2 x\<rfloor> + 1)"
    using log2_bounds(2) [OF assms] .
  also have "\<dots> \<le> 2 powi (expo x + 53)"
    using assms by (intro power_int_increasing) (auto simp: expo_def)
  finally have "x / 2 powi expo x \<le> 2 powi (expo x + 53) / 2 powi expo x"
    by (simp add: divide_right_mono)
  also have "\<dots> = of_int (2 ^ 53)"
    by (simp add: power_int_add)
  finally have "rne (x / 2 powi expo x) \<le> rne (of_int (2 ^ 53))"
    by (rule rne_mono)
  then show ?thesis
    by (simp only: rne_of_int)
qed

lemma rne_scaled_nonneg:
  assumes "0 \<le> x"
  shows "0 \<le> rne (x / 2 powi expo x)"
proof -
  have "rne (of_int 0) \<le> rne (x / 2 powi expo x)"
    using assms by (intro rne_mono) simp
  then show ?thesis
    by (simp only: rne_of_int)
qed

lemma rne_scaled_abs: "\<bar>rne (x / 2 powi expo x)\<bar> \<le> 2 ^ 53"
proof (cases "0 < x")
  case True
  then show ?thesis
    using rne_scaled_upper [of x] rne_scaled_nonneg [of x] by simp
next
  case False
  show ?thesis
  proof (cases "x = 0")
    case True
    then show ?thesis by simp
  next
    case False
    then have neg: "0 < - x"
      using \<open>\<not> 0 < x\<close> by simp
    have "rne (x / 2 powi expo x) = - rne (- x / 2 powi expo (- x))"
      using rne_minus [of "x / 2 powi expo x"] by simp
    then show ?thesis
      using rne_scaled_upper [OF neg] rne_scaled_nonneg [of "- x"] neg by simp
  qed
qed

lemma fl_idem:
  assumes "fl x = Fin y"
  shows "fl y = Fin y"
proof -
  define m where "m = rne (x / 2 powi expo x)"
  define e where "e = expo x"
  have y: "y = of_int m * 2 powi e" and bound: "\<bar>y\<bar> < overflow_bound"
    using assms by (auto simp: fl_def Let_def round_to_grid_eq m_def e_def split: if_splits)
  have e: "- 1074 \<le> e"
    by (simp add: e_def expo_lower)
  have m: "\<bar>m\<bar> \<le> 2 ^ 53"
    unfolding m_def by (rule rne_scaled_abs)
  show ?thesis
  proof (cases "\<bar>m\<bar> < 2 ^ 53")
    case True
    then show ?thesis
      using fl_exact [of m e] e bound by (simp add: y)
  next
    case False
    then have "\<bar>m\<bar> = 2 ^ 53"
      using m by simp
    then have "m = 2 ^ 53 \<or> m = - (2 ^ 53)"
      by linarith
    then have m2: "m = 2 * (m div 2)" and small: "\<bar>m div 2\<bar> < 2 ^ 53"
      by auto
    have "y = of_int (2 * (m div 2)) * 2 powi e"
      using m2 y by simp
    also have "\<dots> = of_int (m div 2) * (2 powi e * 2)"
      by simp
    also have "2 powi e * (2::real) = 2 powi (e + 1)"
      by (simp add: power_int_add)
    finally have y': "y = of_int (m div 2) * 2 powi (e + 1)" .
    show ?thesis
      using fl_exact [of "m div 2" "e + 1"] small e bound by (simp add: y')
  qed
qed

lemma representable_fl [simp]: "representable (fl x)"
  by (cases "fl x") (auto simp: representable_def dest: fl_idem)

lemma representable_jsadd [simp]: "representable (jsadd a b)"
  by (cases a; cases b) (simp_all add: representable_def [of NaN] representable_def [of PInf] representable_def [of NInf])

lemma jsadd_zero_right: "representable t \<Longrightarrow> jsadd t (Fin 0) = t"
  by (cases t) (simp_all add: representable_def)

lemma representable_0 [simp]: "representable (Fin 0)"
  by (simp add: representable_def)


subsection \<open>The grid of binary64 values and the sign of a difference\<close>

lemma fl_neg_numeral [simp]:
  "\<bar>numeral k :: int\<bar> < 2 ^ 53 \<Longrightarrow> fl (- numeral k) = Fin (- numeral k)"
  using fl_of_int [of "- numeral k"] by simp

lemma min_subnormal_pos: "0 < min_subnormal"
  by (simp add: min_subnormal_def)

lemma on_grid:
  assumes "fl a = Fin a"
  shows "\<exists>k::int. a = of_int k * min_subnormal"
proof -
  have a: "a = of_int (rne (a / 2 powi expo a)) * 2 powi expo a"
    using assms by (auto simp: fl_def Let_def round_to_grid_eq split: if_splits)
  have "(2::real) powi (expo a + 1074 + (- 1074)) = 2 powi (expo a + 1074) * 2 powi (- 1074)"
    by (rule power_int_add) simp
  then have "(2::real) powi expo a = 2 powi (expo a + 1074) * min_subnormal"
    by (simp only: min_subnormal_def) simp
  also have "(2::real) powi (expo a + 1074) = of_int (2 ^ nat (expo a + 1074))"
    using expo_lower [of a] by (simp add: power_int_def)
  finally have "a = of_int (rne (a / 2 powi expo a) * 2 ^ nat (expo a + 1074)) * min_subnormal"
    using a by simp
  then show ?thesis ..
qed

lemma fl_min_subnormal: "fl min_subnormal = Fin min_subnormal"
proof -
  have "(2::real) powi (- 1074) \<le> 2 powi 0"
    by (intro power_int_increasing) auto
  then have "\<bar>min_subnormal\<bar> < overflow_bound"
    by (simp add: overflow_bound_def min_subnormal_def)
  then show ?thesis
    using fl_exact [of 1 "- 1074"] by (simp add: min_subnormal_def)
qed

lemma sub_sign:
  assumes "fl a = Fin a" and "fl b = Fin b"
  shows "jlt (Fin 0) (fl (a - b)) \<longleftrightarrow> b < a"
proof
  assume "b < a"
  obtain ka kb :: int where ka: "a = of_int ka * min_subnormal"
    and kb: "b = of_int kb * min_subnormal"
    using on_grid [OF assms(1)] on_grid [OF assms(2)] by blast
  note u = min_subnormal_pos
  have diff: "a - b = of_int (ka - kb) * min_subnormal"
    by (simp add: ka kb algebra_simps)
  have "0 < real_of_int (ka - kb) * min_subnormal"
    using \<open>b < a\<close> diff by simp
  then have "0 < real_of_int (ka - kb)"
    using u by (simp add: zero_less_mult_iff)
  then have "1 \<le> ka - kb"
    by linarith
  then have "real_of_int 1 \<le> real_of_int (ka - kb)"
    by (simp only: of_int_le_iff)
  then have "real_of_int 1 * min_subnormal \<le> real_of_int (ka - kb) * min_subnormal"
    using u by (intro mult_right_mono) auto
  then have "min_subnormal \<le> a - b"
    using diff by simp
  then have "jle (fl min_subnormal) (fl (a - b))"
    by (rule fl_mono)
  then show "jlt (Fin 0) (fl (a - b))"
    using u by (cases "fl (a - b)") (simp_all add: fl_min_subnormal)
next
  assume pos: "jlt (Fin 0) (fl (a - b))"
  show "b < a"
  proof (rule ccontr)
    assume "\<not> b < a"
    then have "jle (fl (a - b)) (Fin 0)"
      by (intro fl_nonpos) simp
    then show False
      using pos by (cases "fl (a - b)") simp_all
  qed
qed


subsection \<open>Rounding at the end of the exact integers\<close>

text \<open>
  Three roundings at \<open>2 ^ 53 = 9007199254740992\<close>, where the spacing of binary64 is 2:
  the odd number in between is a tie and goes to the even neighbour.
\<close>

lemma fl_2_53: "fl 9007199254740992 = Fin 9007199254740992"
  using fl_exact [of 4503599627370496 1] by (simp add: overflow_bound_def)

lemma fl_2_53_plus_2: "fl 9007199254740994 = Fin 9007199254740994"
  using fl_exact [of 4503599627370497 1] by (simp add: overflow_bound_def)

lemma fl_2_53_plus_1: "fl 9007199254740993 = Fin 9007199254740992"
proof -
  have "\<lfloor>log 2 (9007199254740993::real)\<rfloor> = 53"
    by (subst floor_log_eq_powr_iff) simp_all
  then have e: "expo 9007199254740993 = 1"
    by (simp add: expo_def)
  have "rne (9007199254740993 / 2) = 4503599627370496"
    by (simp add: rne_def)
  then have "round_to_grid 9007199254740993 = 9007199254740992"
    by (simp add: round_to_grid_def e)
  then show ?thesis
    by (simp add: fl_def overflow_bound_def)
qed


section \<open>Budget status\<close>

text \<open>
  C1. For all numbers \<open>spent\<close> and \<open>budget\<close>, \<open>getBudgetStatus\<close> returns one of the four
  status strings, and which one is decided by the utilization percentage with the
  thresholds tested from the highest down: exceeded when the utilization is at least 100,
  otherwise warning when it is at least 90, otherwise caution when it is at least 75,
  otherwise healthy (which is also the answer for a NaN utilization).
\<close>

theorem getBudgetStatus_thresholds:
  "getBudgetStatus spent budget \<in> {''healthy'', ''caution'', ''warning'', ''exceeded''} \<and>
   (getBudgetStatus spent budget = ''exceeded'' \<longleftrightarrow>
      jge (calculateBudgetUtilization spent budget) (Fin 100)) \<and>
   (getBudgetStatus spent budget = ''warning'' \<longleftrightarrow>
      \<not> jge (calculateBudgetUtilization spent budget) (Fin 100) \<and>
      jge (calculateBudgetUtilization spent budget) (Fin 90)) \<and>
   (getBudgetStatus spent budget = ''caution'' \<longleftrightarrow>
      \<not> jge (calculateBudgetUtilization spent budget) (Fin 90) \<and>
      jge (calculateBudgetUtilization spent budget) (Fin 75)) \<and>
   (getBudgetStatus spent budget = ''healthy'' \<longleftrightarrow>
      \<not> jge (calculateBudgetUtilization spent budget) (Fin 75))"
proof -
  obtain u where u: "calculateBudgetUtilization spent budget = u"
    by simp
  show ?thesis
    unfolding getBudgetStatus_def u Let_def
    by (cases u) (auto simp: jge_def)
qed

text \<open>
  C10. With a budget of zero the status is healthy whatever was spent, because the
  utilization of a zero budget is defined to be 0.
\<close>

theorem getBudgetStatus_zero_budget:
  "getBudgetStatus spent (Fin 0) = ''healthy'' \<and>
   calculateBudgetUtilization spent (Fin 0) = Fin 0"
  by (simp add: getBudgetStatus_def calculateBudgetUtilization_def strict_eq_num_def jge_def)


lemma Math_min_cap: "Math_min x (Fin c) = NaN \<or> jle (Math_min x (Fin c)) (Fin c)"
  by (cases x) simp_all

text \<open>
  C2. For a budget greater than zero the utilization is \<open>min(spent/budget*100, 100)\<close>,
  and for a budget of zero it is 0 for every \<open>spent\<close>; the function is total, so
  neither case raises. Whatever the arguments, the result is NaN or at most 100.
\<close>

theorem calculateBudgetUtilization_spec:
  "(jlt (Fin 0) budget \<longrightarrow>
      calculateBudgetUtilization spent budget = spec_utilization spent budget) \<and>
   calculateBudgetUtilization spent (Fin 0) = Fin 0 \<and>
   (calculateBudgetUtilization spent budget = NaN \<or>
    jle (calculateBudgetUtilization spent budget) (Fin 100))"
  using Math_min_cap [of "jsmul (jsdiv spent budget) (Fin 100)" 100]
  by (cases budget)
    (simp_all add: calculateBudgetUtilization_def spec_utilization_def strict_eq_num_def)

theorem calculateBudgetUtilization_spec_witness:
  "jlt (Fin 0) (Fin 4) \<and> calculateBudgetUtilization (Fin 3) (Fin 4) = Fin 75 \<and>
   calculateBudgetUtilization (Fin 3) (Fin 0) = Fin 0"
  using calculateBudgetUtilization_spec [of "Fin 4" "Fin 3"]
  by (simp add: spec_utilization_def fl_three_quarters calculateBudgetUtilization_def
      strict_eq_num_def)


section \<open>Monotonicity of the budget status\<close>

lemma status_of_mono:
  assumes "jle u v"
  shows "severity (status_of (Math_min u (Fin 100))) \<le> severity (status_of (Math_min v (Fin 100)))"
  using assms by (cases u; cases v) (auto simp: status_of_def severity_def jge_def)

lemma status_of_nonpos:
  assumes "jle u (Fin 0) \<or> u = NaN"
  shows "status_of (Math_min u (Fin 100)) = ''healthy''"
  using assms by (cases u) (auto simp: status_of_def jge_def)

lemma getBudgetStatus_alt:
  "getBudgetStatus x b =
     (if strict_eq_num b (Fin 0) then ''healthy''
      else status_of (Math_min (jsmul (jsdiv x b) (Fin 100)) (Fin 100)))"
  by (simp add: getBudgetStatus_def calculateBudgetUtilization_def status_of_def jge_def)

lemma util_nonpos:
  assumes "jle (Fin 0) x" and "b < 0"
  shows "jle (jsmul (jsdiv x (Fin b)) (Fin 100)) (Fin 0)"
proof (cases x)
  case (Fin a)
  then have "a / b \<le> 0"
    using assms by (simp add: divide_nonneg_neg)
  then have q: "jle (fl (a / b)) (Fin 0)"
    by (rule fl_nonpos)
  have "jle (jsmul (fl (a / b)) (Fin 100)) (jsmul (Fin 0) (Fin 100))"
    using q by (rule jsmul_100_mono)
  then show ?thesis
    using Fin assms by simp
qed (use assms in simp_all)

text \<open>
  The data model has budgets non-negative. Outside it, with the negative budget -100,
  the utilization falls as the spend grows: a spend of -100 is exceeded and a spend of 0
  is healthy. The hypothesis on the budget below is what excludes this.
\<close>

lemma getBudgetStatus_negative_budget:
  "jle (Fin (- 100)) (Fin 0) \<and>
   \<not> severity (getBudgetStatus (Fin (- 100)) (Fin (- 100)))
       \<le> severity (getBudgetStatus (Fin 0) (Fin (- 100)))"
  by (simp add: getBudgetStatus_def calculateBudgetUtilization_def strict_eq_num_def
      jge_def severity_def)

text \<open>
  C3: for every fixed budget \<open>b\<close> of the data model (budgets are non-negative) and all
  spends \<open>x1 \<le> x2\<close>, the status of \<open>x2\<close> is at least as severe as the status of \<open>x1\<close>
  under healthy < caution < warning < exceeded. The theorem covers every budget that is
  not a negative finite number (zero, positive, infinite or NaN), and every budget at
  all when the smaller spend is not negative.
\<close>

theorem status_monotone:
  assumes "jle x1 x2" and "\<not> finite_negative b \<or> jle (Fin 0) x1"
  shows "severity (getBudgetStatus x1 b) \<le> severity (getBudgetStatus x2 b)"
proof (cases b)
  case NaN
  then show ?thesis
    by (cases x1; cases x2)
      (simp_all add: getBudgetStatus_alt strict_eq_num_def status_of_def jge_def)
next
  case PInf
  then show ?thesis
    by (cases x1; cases x2)
      (simp_all add: getBudgetStatus_alt strict_eq_num_def status_of_def jge_def)
next
  case NInf
  then show ?thesis
    by (cases x1; cases x2)
      (simp_all add: getBudgetStatus_alt strict_eq_num_def status_of_def jge_def)
next
  case (Fin r)
  consider "r = 0" | "0 < r" | "r < 0"
    by linarith
  then show ?thesis
  proof cases
    case 1
    then show ?thesis
      using Fin by (simp add: getBudgetStatus_alt strict_eq_num_def)
  next
    case 2
    have "jle (jsmul (jsdiv x1 (Fin r)) (Fin 100)) (jsmul (jsdiv x2 (Fin r)) (Fin 100))"
      using assms(1) 2 by (intro jsmul_100_mono jsdiv_mono_pos)
    then show ?thesis
      using Fin 2 by (simp add: getBudgetStatus_alt strict_eq_num_def status_of_mono)
  next
    case 3
    then have x1: "jle (Fin 0) x1"
      using assms(2) Fin by (simp add: finite_negative_def)
    then have x2: "jle (Fin 0) x2"
      using assms(1) by (rule jle_trans)
    show ?thesis
      using Fin 3 util_nonpos [OF x1 3] util_nonpos [OF x2 3]
      by (simp add: getBudgetStatus_alt strict_eq_num_def status_of_nonpos)
  qed
qed

theorem status_monotone_witness:
  "jle (Fin 3) (Fin 4) \<and> \<not> finite_negative (Fin 4) \<and>
   getBudgetStatus (Fin 3) (Fin 4) = ''caution'' \<and>
   getBudgetStatus (Fin 4) (Fin 4) = ''exceeded'' \<and>
   severity (getBudgetStatus (Fin 3) (Fin 4)) \<le> severity (getBudgetStatus (Fin 4) (Fin 4))"
  using status_monotone [of "Fin 3" "Fin 4" "Fin 4"]
  by (simp add: finite_negative_def getBudgetStatus_def calculateBudgetUtilization_def
      strict_eq_num_def jge_def fl_three_quarters)

section \<open>Total expenses\<close>

lemma jsadd_NaN_right [simp]: "jsadd t NaN = NaN"
  by (cases t) simp_all

lemma foldl_jsadd_NaN [simp]: "foldl jsadd NaN xs = NaN"
  by (induction xs) simp_all

lemma foldl_jsadd_has_NaN: "NaN \<in> set xs \<Longrightarrow> foldl jsadd t xs = NaN"
  by (induction xs arbitrary: t) auto

lemma total_foldl:
  assumes "representable t"
  shows "foldl (\<lambda>total expense. jsadd total (parseFloat (or_else (amount expense) (JNum (Fin 0))))) t es
       = foldl jsadd t (map (\<lambda>e. parseFloat (amount e)) (filter (\<lambda>e. truthy (amount e)) es))"
  using assms by (induction es arbitrary: t) (simp_all add: or_else_def jsadd_zero_right)

lemmas parse_defs = parseFloat_str_def parse_unsigned_def parse_exponent_def is_space_def
  is_digit_def digits_val_def

lemma parseFloat_str_examples:
  "parseFloat_str ''abc'' = NaN"
  "parseFloat_str '' 10'' = Fin 10"
  "parseFloat_str ''-1.5e1x'' = Fin (- 15)"
  "parseFloat_str ''+Infinity'' = PInf"
  "parseFloat_str ''.'' = NaN"
  by (simp_all add: parse_defs)

text \<open>
  C5, as stated: the total is the sum of the amounts in which every missing or
  unparseable amount counts as 0. The amount \<^verbatim>\<open>'abc'\<close> is truthy, so \<^verbatim>\<open>|| 0\<close> keeps
  it, \<^verbatim>\<open>parseFloat\<close> returns NaN for it, and the total of \<^verbatim>\<open>'abc'\<close> and 5 is NaN,
  not 5.
\<close>

theorem calculateTotalExpenses_counterexample:
  "parseFloat (JStr ''abc'') = NaN \<and>
   calculateTotalExpenses
     [\<lparr>amount = JStr ''abc'', category = JStr ''food''\<rparr>,
      \<lparr>amount = JNum (Fin 5), category = JStr ''food''\<rparr>] = NaN \<and>
   spec_total
     [\<lparr>amount = JStr ''abc'', category = JStr ''food''\<rparr>,
      \<lparr>amount = JNum (Fin 5), category = JStr ''food''\<rparr>] = Fin 5"
  by (simp add: calculateTotalExpenses_def spec_total_def spec_amount_def or_else_def parse_defs)

text \<open>
  C5, amended: the total is the JavaScript sum, from 0 and in list order, of
  \<^verbatim>\<open>parseFloat(amount)\<close> over the records whose amount is truthy; a record whose amount
  is missing or otherwise falsy (\<^verbatim>\<open>undefined\<close>, \<^verbatim>\<open>null\<close>, \<^verbatim>\<open>''\<close>, 0, NaN,
  \<^verbatim>\<open>false\<close>) contributes nothing, and a truthy amount that does not parse as a number
  makes the total NaN. The function is total: it never raises.
\<close>

theorem calculateTotalExpenses_sum:
  "calculateTotalExpenses es =
     foldl jsadd (Fin 0)
       (map (\<lambda>e. parseFloat (amount e)) (filter (\<lambda>e. truthy (amount e)) es)) \<and>
   ((\<exists>e \<in> set es. truthy (amount e) \<and> parseFloat (amount e) = NaN) \<longrightarrow>
      calculateTotalExpenses es = NaN)"
proof -
  have eq: "calculateTotalExpenses es =
     foldl jsadd (Fin 0)
       (map (\<lambda>e. parseFloat (amount e)) (filter (\<lambda>e. truthy (amount e)) es))"
    unfolding calculateTotalExpenses_def by (rule total_foldl) simp
  have "calculateTotalExpenses es = NaN"
    if "\<exists>e \<in> set es. truthy (amount e) \<and> parseFloat (amount e) = NaN"
  proof -
    from that obtain e where "e \<in> set es" "truthy (amount e)" "parseFloat (amount e) = NaN"
      by blast
    then have "NaN \<in> set (map (\<lambda>e. parseFloat (amount e)) (filter (\<lambda>e. truthy (amount e)) es))"
      by force
    then show ?thesis
      unfolding eq by (rule foldl_jsadd_has_NaN)
  qed
  with eq show ?thesis
    by blast
qed

theorem calculateTotalExpenses_sum_witness:
  "calculateTotalExpenses
     [\<lparr>amount = JUndefined, category = JStr ''food''\<rparr>,
      \<lparr>amount = JStr ''7'', category = JStr ''bills''\<rparr>,
      \<lparr>amount = JNum (Fin 5), category = JStr ''food''\<rparr>] = Fin 12 \<and>
   calculateTotalExpenses
     [\<lparr>amount = JNum (Fin 5), category = JStr ''food''\<rparr>,
      \<lparr>amount = JBool True, category = JStr ''food''\<rparr>] = NaN"
  using calculateTotalExpenses_sum
      [of "[\<lparr>amount = JUndefined, category = JStr ''food''\<rparr>,
            \<lparr>amount = JStr ''7'', category = JStr ''bills''\<rparr>,
            \<lparr>amount = JNum (Fin 5), category = JStr ''food''\<rparr>]"]
    calculateTotalExpenses_sum
      [of "[\<lparr>amount = JNum (Fin 5), category = JStr ''food''\<rparr>,
            \<lparr>amount = JBool True, category = JStr ''food''\<rparr>]"]
  by (simp add: parse_defs)

section \<open>Validation results\<close>

text \<open>
  The data model types the category as a string. A category of another type that is
  truthy (a number, \<^verbatim>\<open>true\<close>) passes \<^verbatim>\<open>!category\<close> and then fails at
  \<^verbatim>\<open>category.trim()\<close> with a TypeError; such wrongly typed fields are excluded by the
  hypothesis below.
\<close>

lemma validate_category_not_string:
  "validateExpense
     \<lparr>amount = JNum (Fin 10), category = JNum (Fin 5), date = JStr ''2024-01-05''\<rparr>
     = Inl TypeError \<and>
   validateBudget \<lparr>amount = JNum (Fin 10), category = JBool True\<rparr> = Inl TypeError"
  by (simp add: validateExpense_def validateBudget_def)

lemma category_blank_Inr:
  "string_or_absent c \<Longrightarrow> \<exists>b. category_blank c = Inr b"
  by (cases c) auto

text \<open>
  C9: for every input record, whatever its amount and date and with the category a
  string or absent (any falsy value), \<open>validateExpense\<close> and \<open>validateBudget\<close> do not
  raise: each returns a result, \<open>isValid\<close> holds exactly when \<open>errors\<close> is empty, and
  \<open>errors\<close> lists messages of the validator in the order of its tests.
\<close>

theorem validation_result:
  assumes "string_or_absent (category e)" and "string_or_absent (category b)"
  shows "(\<exists>r. validateExpense e = Inr r \<and> (isValid r \<longleftrightarrow> errors r = []) \<and>
              subseq (errors r) expense_messages) \<and>
         (\<exists>r. validateBudget b = Inr r \<and> (isValid r \<longleftrightarrow> errors r = []) \<and>
              subseq (errors r) budget_messages)"
proof -
  obtain be where be: "category_blank (category e) = Inr be"
    using category_blank_Inr [OF assms(1)] by blast
  obtain bb where bb: "category_blank (category b) = Inr bb"
    using category_blank_Inr [OF assms(2)] by blast
  have "\<exists>r. validateExpense e = Inr r \<and> (isValid r \<longleftrightarrow> errors r = []) \<and>
              subseq (errors r) expense_messages"
    by (simp add: validateExpense_def be push_if_def expense_messages_def)
  moreover have "\<exists>r. validateBudget b = Inr r \<and> (isValid r \<longleftrightarrow> errors r = []) \<and>
              subseq (errors r) budget_messages"
    by (simp add: validateBudget_def bb push_if_def budget_messages_def)
  ultimately show ?thesis
    by blast
qed

theorem validation_result_witness:
  "string_or_absent (JStr ''  '') \<and> string_or_absent (JStr ''food'') \<and>
   validateExpense \<lparr>amount = JStr ''0'', category = JStr ''  '', date = JUndefined\<rparr>
     = Inr \<lparr>isValid = False,
            errors = [''Amount must be positive'', ''Category is required'',
                      ''Date is required'']\<rparr> \<and>
   validateBudget \<lparr>amount = JNum (Fin 500), category = JStr ''food''\<rparr>
     = Inr \<lparr>isValid = True, errors = []\<rparr>"
  using validation_result
      [of "\<lparr>amount = JStr ''0'', category = JStr ''  '', date = JUndefined\<rparr>"
          "\<lparr>amount = JNum (Fin 500), category = JStr ''food''\<rparr>"]
  by (simp add: validateExpense_def validateBudget_def push_if_def trim_def parse_defs)

section \<open>The median\<close>

lemma insert_sorted_Fin:
  assumes "fl x = Fin x" and "\<forall>y \<in> set ys. fl y = Fin y"
  shows "insert_sorted (Fin x) (map Fin ys) = map Fin (insort x ys)"
  using assms by (induction ys) (auto simp: sortCompare_def jgt_def sub_sign)

lemma insort_set_doubles:
  "fl x = Fin x \<Longrightarrow> \<forall>y \<in> set ys. fl y = Fin y \<Longrightarrow> \<forall>y \<in> set (insort x ys). fl y = Fin y"
  by (simp add: set_insort_key)

lemma array_sort_Fin:
  assumes "\<forall>r \<in> set rs. fl r = Fin r"
  shows "array_sort (map Fin rs) = map Fin (sort rs)"
  using assms
proof (induction rs)
  case Nil
  then show ?case by (simp add: array_sort_def)
next
  case (Cons r rs)
  then have "array_sort (map Fin rs) = map Fin (sort rs)"
    by simp
  moreover have "\<forall>y \<in> set (sort rs). fl y = Fin y"
    using Cons.prems by simp
  ultimately show ?case
    using Cons.prems by (simp add: array_sort_def insert_sorted_Fin)
qed

text \<open>
  C6. For records whose amounts are finite numbers \<open>rs\<close>, \<open>calculateMedianExpense\<close>
  returns the median of \<open>rs\<close>: with the amounts in ascending order, the middle one for an
  odd count and the JavaScript average of the two middle ones for an even count. The
  empty list gives 0, the single amount 10 gives 10, and the amounts 10 and 20 give 15.
\<close>

theorem calculateMedianExpense_spec:
  assumes "list_all2 numeric_amount es rs"
  shows "calculateMedianExpense es = spec_median rs \<and>
         calculateMedianExpense ([] :: entry list) = Fin 0 \<and>
         calculateMedianExpense [\<lparr>amount = JNum (Fin 10), category = JUndefined\<rparr>] = Fin 10 \<and>
         calculateMedianExpense [\<lparr>amount = JNum (Fin 10), category = JUndefined\<rparr>,
           \<lparr>amount = JNum (Fin 20), category = JUndefined\<rparr>] = Fin 15"
proof -
  have len: "length es = length rs"
    using assms by (rule list_all2_lengthD)
  have amounts: "map (\<lambda>e. parseFloat (amount e)) es = map Fin rs"
    using assms by (induction rule: list_all2_induct) (simp_all add: numeric_amount_def)
  have doubles: "\<forall>r \<in> set rs. fl r = Fin r"
    using assms by (induction rule: list_all2_induct) (simp_all add: numeric_amount_def)
  have sorted: "array_sort (map (\<lambda>e. parseFloat (amount e)) es) = map Fin (sort rs)"
    unfolding amounts using doubles by (rule array_sort_Fin)
  have general: "calculateMedianExpense es = spec_median rs"
  proof (cases "rs = []")
    case True
    then show ?thesis
      using len by (simp add: calculateMedianExpense_def spec_median_def)
  next
    case False
    then have n: "0 < length rs"
      by simp
    then have mid: "length rs div 2 < length rs"
      by simp
    have mid1: "length rs div 2 - 1 < length rs"
      using n by linarith
    show ?thesis
      using False n mid mid1 len
      by (simp add: calculateMedianExpense_def spec_median_def sorted Let_def
          even_iff_mod_2_eq_zero)
  qed
  have empty: "calculateMedianExpense ([] :: entry list) = Fin 0"
    by (simp add: calculateMedianExpense_def)
  have single:
    "calculateMedianExpense [\<lparr>amount = JNum (Fin 10), category = JUndefined\<rparr>] = Fin 10"
    by (simp add: calculateMedianExpense_def array_sort_def)
  have pair:
    "calculateMedianExpense [\<lparr>amount = JNum (Fin 10), category = JUndefined\<rparr>,
       \<lparr>amount = JNum (Fin 20), category = JUndefined\<rparr>] = Fin 15"
    by (simp add: calculateMedianExpense_def array_sort_def sortCompare_def jgt_def)
  from general empty single pair show ?thesis
    by blast
qed

theorem calculateMedianExpense_spec_witness:
  "list_all2 numeric_amount
     [\<lparr>amount = JNum (Fin 30), category = JStr ''food''\<rparr>,
      \<lparr>amount = JStr ''10'', category = JStr ''food''\<rparr>,
      \<lparr>amount = JNum (Fin 20), category = JStr ''bills''\<rparr>]
     [30, 10, 20] \<and>
   calculateMedianExpense
     [\<lparr>amount = JNum (Fin 30), category = JStr ''food''\<rparr>,
      \<lparr>amount = JStr ''10'', category = JStr ''food''\<rparr>,
      \<lparr>amount = JNum (Fin 20), category = JStr ''bills''\<rparr>] = Fin 20"
  using calculateMedianExpense_spec
      [of "[\<lparr>amount = JNum (Fin 30), category = JStr ''food''\<rparr>,
            \<lparr>amount = JStr ''10'', category = JStr ''food''\<rparr>,
            \<lparr>amount = JNum (Fin 20), category = JStr ''bills''\<rparr>]" "[30, 10, 20]"]
  by (simp add: numeric_amount_def spec_median_def parse_defs)

section \<open>Grouping builds one entry per key\<close>

lemma first_keys_snoc:
  "first_keys (ks @ [k]) = (if k \<in> set ks then first_keys ks else first_keys ks @ [k])"
  by (simp add: first_keys_def)

lemma distinct_first_keys [simp]: "distinct (first_keys ks)"
  by (simp add: first_keys_def)

lemma set_first_keys [simp]: "set (first_keys ks) = set ks"
  by (simp add: first_keys_def)

lemma map_of_groups_of:
  "map_of (groups_of key mk xs) k =
     (if k \<in> key ` set xs then Some (mk (filter (\<lambda>e. key e = k) xs)) else None)"
  by (simp add: groups_of_def map_of_map_restrict restrict_map_def)

lemma update_map_keys:
  assumes "distinct ks" and "k \<in> set ks"
  shows "AList.update k v (map (\<lambda>k'. (k', f k')) ks) =
         map (\<lambda>k'. (k', if k' = k then v else f k')) ks"
  using assms by (induction ks) (auto simp: AList.update_def)

lemma integer_string_examples:
  "integer_string 100 = ''100''" "integer_string (- 15) = ''-15''" "integer_string 0 = ''0''"
  by (simp_all add: integer_string_def)

lemma upsert_groups_of:
  assumes mk: "\<And>ys. mk (ys @ [e]) = add (mk ys) e" and mk_nil: "mk [] = init"
    and ok: "key e \<notin> set Object_prototype_keys"
  shows "upsert (key e) init (\<lambda>g. add g e) (groups_of key mk xs)
           = Inr (groups_of key mk (xs @ [e]))"
proof (cases "key e \<in> key ` set xs")
  case True
  then have in_keys: "key e \<in> set (first_keys (map key xs))"
    by simp
  have "AList.update (key e) (add (mk (filter (\<lambda>x. key x = key e) xs)) e)
          (groups_of key mk xs) = groups_of key mk (xs @ [e])"
    unfolding groups_of_def
    using True
    by (subst update_map_keys [OF distinct_first_keys in_keys])
      (auto simp: first_keys_snoc mk)
  then show ?thesis
    using True by (simp add: upsert_def get_property_def map_of_groups_of)
next
  case False
  then have none: "filter (\<lambda>x. key x = key e) xs = []"
    by (induction xs) auto
  have "groups_of key mk xs @ [(key e, add init e)] = groups_of key mk (xs @ [e])"
    unfolding groups_of_def
    using False mk [of "[]"] by (auto simp: first_keys_snoc none mk_nil)
  then show ?thesis
    using False ok by (simp add: upsert_def get_property_def map_of_groups_of)
qed

lemma reduce_upsert:
  assumes step: "\<And>acc e. step acc e = upsert (key e) init (\<lambda>g. add g e) acc"
    and mk: "\<And>ys e. mk (ys @ [e]) = add (mk ys) e" and mk_nil: "mk [] = init"
    and ok: "\<forall>e \<in> set es. key e \<notin> set Object_prototype_keys"
  shows "reduce_result step (groups_of key mk xs) es = Inr (groups_of key mk (xs @ es))"
  using ok
proof (induction es arbitrary: xs)
  case Nil
  then show ?case by simp
next
  case (Cons e es)
  have "step (groups_of key mk xs) e = Inr (groups_of key mk (xs @ [e]))"
    unfolding step using Cons.prems by (intro upsert_groups_of mk mk_nil) simp
  then show ?case
    using Cons.IH [of "xs @ [e]"] Cons.prems by simp
qed

lemma reduce_inherited:
  assumes step: "\<And>acc e. step acc e = upsert (key e) init (\<lambda>g. add g e) acc"
    and bad: "key e \<in> set Object_prototype_keys"
  shows "reduce_result step [] (e # es) = Inl TypeError"
  using bad by (simp add: step upsert_def get_property_def)

section \<open>Group totals\<close>

lemma group_step_upsert:
  "group_step ts acc e = upsert (category_key ts e) empty_group (\<lambda>g. add_expense g e) acc"
  by (simp add: group_step_def upsert_def empty_group_def Let_def split: property.splits)

lemma groups_of_Nil [simp]: "groups_of key mk [] = []"
  by (simp add: groups_of_def first_keys_def)

lemma groupExpensesByCategory_groups_of:
  assumes "\<forall>e \<in> set es. category_key ts e \<notin> set Object_prototype_keys"
  shows "groupExpensesByCategory ts es
           = Inr (groups_of (category_key ts) (foldl add_expense empty_group) es)"
  using reduce_upsert [where step = "group_step ts" and key = "category_key ts"
      and init = empty_group and add = add_expense and mk = "foldl add_expense empty_group"
      and es = es and xs = "[]"] assms
  by (simp add: groupExpensesByCategory_def group_step_upsert)

lemma total_foldl_add_expense:
  "total (foldl add_expense g xs)
     = foldl (\<lambda>t e. jsadd t (parseFloat (or_else (amount e) (JNum (Fin 0))))) (total g) xs"
  by (induction xs arbitrary: g) (simp_all add: add_expense_def)

lemma total_group: "total (foldl add_expense empty_group xs) = calculateTotalExpenses xs"
  by (simp add: total_foldl_add_expense calculateTotalExpenses_def empty_group_def)

lemma exact_sum_list:
  assumes "\<bar>t\<bar> + sum_list (map abs ks) < 2 ^ 53"
  shows "foldl jsadd (Fin (of_int t)) (map (\<lambda>k. Fin (of_int k)) ks) = Fin (of_int (t + sum_list ks))"
  using assms
proof (induction ks arbitrary: t)
  case Nil
  then show ?case by simp
next
  case (Cons k ks)
  have nonneg: "0 \<le> sum_list (map abs ks)"
    by (induction ks) auto
  have "\<bar>t + k\<bar> < 2 ^ 53"
    using Cons.prems nonneg by simp
  then have "fl (of_int (t + k)) = Fin (of_int (t + k))"
    by (rule fl_of_int)
  moreover have "\<bar>t + k\<bar> + sum_list (map abs ks) < 2 ^ 53"
    using Cons.prems by simp
  ultimately show ?case
    using Cons.IH [of "t + k"] by (simp add: add.assoc)
qed

lemma exact_total:
  assumes "\<forall>e \<in> set xs. integer_amount (amount e)"
    and "sum_list (map (\<lambda>e. \<bar>amount_int (amount e)\<bar>) xs) < 2 ^ 53"
  shows "calculateTotalExpenses xs = Fin (of_int (sum_list (map (\<lambda>e. amount_int (amount e)) xs)))"
proof -
  have "map (\<lambda>e. parseFloat (or_else (amount e) (JNum (Fin 0)))) xs
          = map (\<lambda>k. Fin (of_int k)) (map (\<lambda>e. amount_int (amount e)) xs)"
    using assms(1) by (simp add: integer_amount_def)
  moreover have "calculateTotalExpenses xs
          = foldl jsadd (Fin 0) (map (\<lambda>e. parseFloat (or_else (amount e) (JNum (Fin 0)))) xs)"
    by (simp add: calculateTotalExpenses_def foldl_map)
  ultimately have "calculateTotalExpenses xs
          = foldl jsadd (Fin (of_int 0)) (map (\<lambda>k. Fin (of_int k)) (map (\<lambda>e. amount_int (amount e)) xs))"
    by (simp only: of_int_0)
  also have "\<dots> = Fin (of_int (0 + sum_list (map (\<lambda>e. amount_int (amount e)) xs)))"
    using assms(2) by (intro exact_sum_list) (simp add: comp_def)
  finally show ?thesis
    by simp
qed

lemma sum_list_filter_le:
  fixes f :: "'a \<Rightarrow> int"
  assumes "\<And>x. 0 \<le> f x"
  shows "sum_list (map f (filter P xs)) \<le> sum_list (map f xs)"
  using assms by (induction xs) (auto simp: add_increasing)

lemma sum_list_delta_notin:
  fixes c :: int
  shows "k \<notin> set ks \<Longrightarrow> sum_list (map (\<lambda>k'. if k = k' then c else 0) ks) = 0"
  by (induction ks) auto

lemma sum_list_delta:
  fixes c :: int
  assumes "distinct ks" and "k \<in> set ks"
  shows "sum_list (map (\<lambda>k'. if k = k' then c else 0) ks) = c"
  using assms by (induction ks) (auto simp: sum_list_delta_notin)

lemma sum_list_partition:
  fixes f :: "'a \<Rightarrow> int"
  assumes "distinct ks" and "key ` set xs \<subseteq> set ks"
  shows "sum_list (map (\<lambda>k. sum_list (map f (filter (\<lambda>e. key e = k) xs))) ks) = sum_list (map f xs)"
  using assms(2)
proof (induction xs)
  case Nil
  then show ?case by simp
next
  case (Cons x xs)
  have "sum_list (map (\<lambda>k. sum_list (map f (filter (\<lambda>e. key e = k) (x # xs)))) ks)
      = sum_list (map (\<lambda>k. (if key x = k then f x else 0)
                         + sum_list (map f (filter (\<lambda>e. key e = k) xs))) ks)"
    by (intro arg_cong [where f = sum_list] map_cong) auto
  also have "\<dots> = sum_list (map (\<lambda>k. if key x = k then f x else 0) ks)
      + sum_list (map (\<lambda>k. sum_list (map f (filter (\<lambda>e. key e = k) xs))) ks)"
    by (simp add: sum_list_addf)
  also have "\<dots> = f x + sum_list (map f xs)"
    using Cons assms(1) by (simp add: sum_list_delta)
  finally show ?case
    by simp
qed

lemma sum_list_abs_mono:
  fixes f g :: "'a \<Rightarrow> int"
  assumes "\<And>x. x \<in> set xs \<Longrightarrow> f x \<le> g x"
  shows "sum_list (map f xs) \<le> sum_list (map g xs)"
  using assms by (induction xs) (auto intro: add_mono)

lemma abs_sum_list_map:
  fixes f :: "'a \<Rightarrow> int"
  shows "\<bar>sum_list (map f xs)\<bar> \<le> sum_list (map (\<lambda>x. \<bar>f x\<bar>) xs)"
  by (induction xs) auto

text \<open>
  C4, amended: when no category is named like a property of \<^verbatim>\<open>Object.prototype\<close>,
  every amount is an integer and the absolute values of the amounts sum to less than
  \<open>2 ^ 53\<close> (so that no addition rounds), \<open>groupExpensesByCategory\<close> returns its
  groups, the total of each group is \<open>calculateTotalExpenses\<close> of the records of that
  category, and the group totals add up to \<open>calculateTotalExpenses\<close> of the whole list.
\<close>

theorem group_totals_sum:
  fixes es :: "'a entry_scheme list"
  assumes ok: "\<forall>e \<in> set es. category_key ts e \<notin> set Object_prototype_keys"
    and ints: "\<forall>e \<in> set es. integer_amount (amount e)"
    and small: "sum_list (map (\<lambda>e. \<bar>amount_int (amount e)\<bar>) es) < 2 ^ 53"
  shows "\<exists>grouped. groupExpensesByCategory ts es = Inr grouped \<and>
           (\<forall>(key, g) \<in> set grouped.
              total g = calculateTotalExpenses (filter (\<lambda>e. category_key ts e = key) es)) \<and>
           sum_of_totals grouped = calculateTotalExpenses es"
proof -
  define K :: "'a entry_scheme \<Rightarrow> string" where "K = category_key ts"
  define ks where "ks = first_keys (map K es)"
  define part where "part k = filter (\<lambda>e. K e = k) es" for k
  define S where "S k = sum_list (map (\<lambda>e. amount_int (amount e)) (part k))" for k
  define A where "A k = sum_list (map (\<lambda>e. \<bar>amount_int (amount e)\<bar>) (part k))" for k
  define grouped where "grouped = groups_of K (foldl add_expense empty_group) es"
  have run: "groupExpensesByCategory ts es = Inr grouped"
    unfolding grouped_def K_def using ok by (rule groupExpensesByCategory_groups_of)
  have grouped: "grouped = map (\<lambda>k. (k, foldl add_expense empty_group (part k))) ks"
    by (simp add: grouped_def groups_of_def ks_def part_def)
  have keys: "distinct ks" "K ` set es \<subseteq> set ks"
    by (simp_all add: ks_def)
  have part_total: "calculateTotalExpenses (part k) = Fin (of_int (S k))" for k
  proof -
    have "sum_list (map (\<lambda>e. \<bar>amount_int (amount e)\<bar>) (part k))
        \<le> sum_list (map (\<lambda>e. \<bar>amount_int (amount e)\<bar>) es)"
      unfolding part_def by (rule sum_list_filter_le) simp
    then show ?thesis
      unfolding S_def using ints small by (intro exact_total) (auto simp: part_def)
  qed
  have each: "\<forall>(key, g) \<in> set grouped.
      total g = calculateTotalExpenses (filter (\<lambda>e. category_key ts e = key) es)"
    by (auto simp: grouped total_group part_def K_def)
  have "\<bar>S k\<bar> \<le> A k" for k
    unfolding S_def A_def by (rule abs_sum_list_map)
  then have "sum_list (map (\<lambda>k. \<bar>S k\<bar>) ks) \<le> sum_list (map A ks)"
    by (intro sum_list_abs_mono)
  also have "sum_list (map A ks) = sum_list (map (\<lambda>e. \<bar>amount_int (amount e)\<bar>) es)"
    unfolding A_def part_def using keys by (rule sum_list_partition)
  finally have bound: "\<bar>0\<bar> + sum_list (map abs (map S ks)) < 2 ^ 53"
    using small by (simp add: comp_def)
  have "sum_of_totals grouped = foldl jsadd (Fin (of_int 0)) (map (\<lambda>k. Fin (of_int k)) (map S ks))"
    by (simp add: sum_of_totals_def grouped comp_def total_group part_total)
  also have "\<dots> = Fin (of_int (0 + sum_list (map S ks)))"
    using bound by (rule exact_sum_list)
  also have "sum_list (map S ks) = sum_list (map (\<lambda>e. amount_int (amount e)) es)"
    unfolding S_def part_def using keys by (rule sum_list_partition)
  also have "Fin (of_int (0 + sum_list (map (\<lambda>e. amount_int (amount e)) es)))
      = calculateTotalExpenses es"
    using exact_total [OF ints small] by simp
  finally have "sum_of_totals grouped = calculateTotalExpenses es" .
  with run each show ?thesis
    by blast
qed

lemmas group_defs = groupExpensesByCategory_def group_step_def get_property_def
  category_key_def or_else_def add_expense_def Object_prototype_keys_def sum_of_totals_def
  Let_def

text \<open>
  C4, as stated: for every list the group totals add up to the total of the list. The two
  sides are floating-point sums of the same amounts in different orders. For rent
  9007199254740992 and two food expenses of 1 the running total stays at 9007199254740992
  (adding 1 twice rounds back each time), while the food group holds 2 and the group
  totals add up to 9007199254740994, in either order.
\<close>

theorem group_totals_counterexample:
  "groupExpensesByCategory integer_string
     [\<lparr>amount = JNum (Fin 9007199254740992), category = JStr ''rent''\<rparr>,
      \<lparr>amount = JNum (Fin 1), category = JStr ''food''\<rparr>,
      \<lparr>amount = JNum (Fin 1), category = JStr ''food''\<rparr>]
   = Inr [(''rent'', \<lparr>total = Fin 9007199254740992, count = 1,
             expenses = [\<lparr>amount = JNum (Fin 9007199254740992), category = JStr ''rent''\<rparr>]\<rparr>),
          (''food'', \<lparr>total = Fin 2, count = 2,
             expenses = [\<lparr>amount = JNum (Fin 1), category = JStr ''food''\<rparr>,
                         \<lparr>amount = JNum (Fin 1), category = JStr ''food''\<rparr>]\<rparr>)] \<and>
   sum_of_totals
     [(''rent'', \<lparr>total = Fin 9007199254740992, count = 1,
             expenses = [\<lparr>amount = JNum (Fin 9007199254740992), category = JStr ''rent''\<rparr>]\<rparr>),
          (''food'', \<lparr>total = Fin 2, count = 2,
             expenses = [\<lparr>amount = JNum (Fin 1), category = JStr ''food''\<rparr>,
                         \<lparr>amount = JNum (Fin 1), category = JStr ''food''\<rparr>]\<rparr>)] = Fin 9007199254740994 \<and>
   sum_of_totals
     (rev [(''rent'', \<lparr>total = Fin 9007199254740992, count = 1,
             expenses = [\<lparr>amount = JNum (Fin 9007199254740992), category = JStr ''rent''\<rparr>]\<rparr>),
          (''food'', \<lparr>total = Fin 2, count = 2,
             expenses = [\<lparr>amount = JNum (Fin 1), category = JStr ''food''\<rparr>,
                         \<lparr>amount = JNum (Fin 1), category = JStr ''food''\<rparr>]\<rparr>)]) = Fin 9007199254740994 \<and>
   calculateTotalExpenses
     [\<lparr>amount = JNum (Fin 9007199254740992), category = JStr ''rent''\<rparr>,
      \<lparr>amount = JNum (Fin 1), category = JStr ''food''\<rparr>,
      \<lparr>amount = JNum (Fin 1), category = JStr ''food''\<rparr>] = Fin 9007199254740992"
  by (simp add: group_defs calculateTotalExpenses_def fl_2_53 fl_2_53_plus_1 fl_2_53_plus_2)

theorem group_totals_sum_witness:
  "let es = [\<lparr>amount = JNum (Fin 50), category = JStr ''food''\<rparr>,
             \<lparr>amount = JStr ''20'', category = JStr ''bills''\<rparr>,
             \<lparr>amount = JUndefined, category = JUndefined\<rparr>,
             \<lparr>amount = JNum (Fin 30), category = JStr ''food''\<rparr>];
       grouped =
         [(''food'', \<lparr>total = Fin 80, count = 2,
             expenses = [\<lparr>amount = JNum (Fin 50), category = JStr ''food''\<rparr>,
                         \<lparr>amount = JNum (Fin 30), category = JStr ''food''\<rparr>]\<rparr>),
          (''bills'', \<lparr>total = Fin 20, count = 1,
             expenses = [\<lparr>amount = JStr ''20'', category = JStr ''bills''\<rparr>]\<rparr>),
          (''Uncategorized'', \<lparr>total = Fin 0, count = 1,
             expenses = [\<lparr>amount = JUndefined, category = JUndefined\<rparr>]\<rparr>)]
   in list_all (\<lambda>e. category_key integer_string e \<notin> set Object_prototype_keys) es \<and>
      list_all (\<lambda>e. integer_amount (amount e)) es \<and>
      sum_list (map (\<lambda>e. \<bar>amount_int (amount e)\<bar>) es) = 100 \<and>
      groupExpensesByCategory integer_string es = Inr grouped \<and>
      sum_of_totals grouped = Fin 100 \<and>
      calculateTotalExpenses es = Fin 100"
  using group_totals_sum [of
      "[\<lparr>amount = JNum (Fin 50), category = JStr ''food''\<rparr>,
        \<lparr>amount = JStr ''20'', category = JStr ''bills''\<rparr>,
        \<lparr>amount = JUndefined, category = JUndefined\<rparr>,
        \<lparr>amount = JNum (Fin 30), category = JStr ''food''\<rparr>]" integer_string]
  by (simp add: group_defs calculateTotalExpenses_def integer_amount_def amount_int_def parse_defs)

lemma group_inherited_key_raises:
  "groupExpensesByCategory integer_string
     [\<lparr>amount = JNum (Fin 5), category = JStr ''constructor''\<rparr>] = Inl TypeError"
  by (simp add: group_defs)

section \<open>Recurring groups\<close>

lemma recurring_step_upsert:
  "recurring_step ts acc e = upsert (recurring_key ts e) [] (\<lambda>items. items @ [e]) acc"
  by (simp add: recurring_step_def upsert_def Let_def split: property.splits)

lemma recurring_key_not_inherited: "recurring_key ts e \<notin> set Object_prototype_keys"
proof -
  have "CHR ''-'' \<in> set (recurring_key ts e)"
    by (simp add: recurring_key_def)
  moreover have "\<forall>k \<in> set Object_prototype_keys. CHR ''-'' \<notin> set k"
    by (simp add: Object_prototype_keys_def)
  ultimately show ?thesis
    by blast
qed

lemma recurring_grouped:
  "reduce_result (recurring_step ts) [] es = Inr (groups_of (recurring_key ts) (\<lambda>xs. xs) es)"
  using reduce_upsert [where step = "recurring_step ts" and key = "recurring_key ts"
      and init = "[]" and add = "\<lambda>items e. items @ [e]" and mk = "\<lambda>xs. xs"
      and es = es and xs = "[]"]
  by (simp add: recurring_step_upsert recurring_key_not_inherited)

lemma map_result_patterns:
  assumes "\<forall>(k, items) \<in> set kvs. items \<noteq> []"
  shows "map_result recurring_pattern kvs = Inr (map (\<lambda>(k, items). pattern_of items) kvs)"
  using assms
  by (induction kvs) (auto simp: recurring_pattern_def pattern_of_def split: list.splits)

lemma identifyRecurringExpenses_groups:
  "identifyRecurringExpenses ts es th =
     Inr (map (\<lambda>k. pattern_of (filter (\<lambda>e. recurring_key ts e = k) es))
            (filter (\<lambda>k. jge (Fin (real (length (filter (\<lambda>e. recurring_key ts e = k) es)))) th)
               (first_keys (map (recurring_key ts) es))))"
proof -
  have nonempty: "\<forall>(k, items) \<in> set (filter (\<lambda>(key, items). jge (Fin (real (length items))) th)
      (groups_of (recurring_key ts) (\<lambda>xs. xs) es)). items \<noteq> []"
    by (auto simp: groups_of_def filter_empty_conv)
  show ?thesis
    unfolding identifyRecurringExpenses_def recurring_grouped
    by (simp add: map_result_patterns [OF nonempty])
      (simp add: groups_of_def filter_map comp_def)
qed

lemma count_list_map_filter:
  "count_list (map f xs) y = length (filter (\<lambda>x. f x = y) xs)"
  by (induction xs) auto

lemma recurring_key_pair: "pair_of e = pair_of e' \<Longrightarrow> recurring_key ts e = recurring_key ts e'"
  by (simp add: pair_of_def recurring_key_def)

lemma pair_of_pattern_of [simp]: "pair_of (pattern_of items) = pair_of (hd items)"
  by (simp add: pair_of_def pattern_of_def)

lemma recurring_groups_of_pairs:
  fixes es :: "'a entry_scheme list"
  assumes inj: "\<forall>e \<in> set es. \<forall>e' \<in> set es.
      recurring_key ts e = recurring_key ts e' \<longrightarrow> pair_of e = pair_of e'"
  shows "\<exists>rs. identifyRecurringExpenses ts es th = Inr rs \<and>
           distinct (map pair_of rs) \<and>
           set (map pair_of rs) =
             {p \<in> set (map pair_of es). jge (Fin (real (count_list (map pair_of es) p))) th} \<and>
           (\<forall>r \<in> set rs. expenses' r = filter (\<lambda>e. pair_of e = pair_of r) es \<and>
                          frequency r = length (expenses' r))"
proof -
  define K :: "'a entry_scheme \<Rightarrow> string" where "K = recurring_key ts"
  define part where "part k = filter (\<lambda>e. K e = k) es" for k
  define ks where "ks = filter (\<lambda>k. jge (Fin (real (length (part k)))) th) (first_keys (map K es))"
  define rs where "rs = map (\<lambda>k. pattern_of (part k)) ks"
  have run: "identifyRecurringExpenses ts es th = Inr rs"
    by (simp add: identifyRecurringExpenses_groups rs_def ks_def part_def K_def)
  have head: "hd (part k) \<in> set es \<and> K (hd (part k)) = k" if "k \<in> K ` set es" for k
  proof -
    from that have "part k \<noteq> []"
      by (auto simp: part_def filter_empty_conv)
    then have "hd (part k) \<in> set (part k)"
      by simp
    then show ?thesis
      by (simp add: part_def)
  qed
  have ks_keys: "k \<in> K ` set es" if "k \<in> set ks" for k
    using that by (auto simp: ks_def)
  have part_pair: "part (K e) = filter (\<lambda>e'. pair_of e' = pair_of e) es" if "e \<in> set es" for e
    unfolding part_def
  proof (rule filter_cong [OF refl])
    fix e' assume "e' \<in> set es"
    then have "K e' = K e \<Longrightarrow> pair_of e' = pair_of e"
      using inj that unfolding K_def by blast
    moreover have "pair_of e' = pair_of e \<Longrightarrow> K e' = K e"
      unfolding K_def by (rule recurring_key_pair)
    ultimately show "(K e' = K e) = (pair_of e' = pair_of e)"
      by blast
  qed
  have len: "length (part (K e)) = count_list (map pair_of es) (pair_of e)" if "e \<in> set es" for e
    by (simp add: part_pair [OF that] count_list_map_filter)
  have dist: "distinct (map pair_of rs)"
  proof -
    have "inj_on (\<lambda>k. pair_of (hd (part k))) (set ks)"
    proof (rule inj_onI)
      fix k k' assume k: "k \<in> set ks" and k': "k' \<in> set ks"
        and eq: "pair_of (hd (part k)) = pair_of (hd (part k'))"
      have "K (hd (part k)) = K (hd (part k'))"
        unfolding K_def using eq by (rule recurring_key_pair)
      then show "k = k'"
        using head [OF ks_keys [OF k]] head [OF ks_keys [OF k']] by simp
    qed
    moreover have "distinct ks"
      by (simp add: ks_def)
    ultimately show ?thesis
      by (simp add: rs_def comp_def distinct_map)
  qed
  have set_eq: "set (map pair_of rs) =
      {p \<in> set (map pair_of es). jge (Fin (real (count_list (map pair_of es) p))) th}"
  proof (intro set_eqI iffI)
    fix p assume "p \<in> set (map pair_of rs)"
    then obtain k where k: "k \<in> set ks" and p: "p = pair_of (hd (part k))"
      by (auto simp: rs_def)
    define e where "e = hd (part k)"
    have e: "e \<in> set es" "K e = k"
      using head [OF ks_keys [OF k]] by (simp_all add: e_def)
    have "jge (Fin (real (length (part k)))) th"
      using k by (simp add: ks_def)
    then have "jge (Fin (real (count_list (map pair_of es) (pair_of e)))) th"
      using len [OF e(1)] e(2) by simp
    then show "p \<in> {p \<in> set (map pair_of es). jge (Fin (real (count_list (map pair_of es) p))) th}"
      using e(1) p by (auto simp: e_def)
  next
    fix p assume "p \<in> {p \<in> set (map pair_of es). jge (Fin (real (count_list (map pair_of es) p))) th}"
    then obtain e where e: "e \<in> set es" and p: "p = pair_of e"
      and big: "jge (Fin (real (count_list (map pair_of es) (pair_of e)))) th"
      by auto
    have k: "K e \<in> set ks"
      using e big len [OF e] by (simp add: ks_def)
    have "hd (part (K e)) \<in> set (part (K e))"
      using head [of "K e"] e by (auto simp: part_def filter_empty_conv)
    then have "pair_of (hd (part (K e))) = pair_of e"
      by (simp add: part_pair [OF e])
    then show "p \<in> set (map pair_of rs)"
      using k p by (force simp: rs_def)
  qed
  have members: "\<forall>r \<in> set rs. expenses' r = filter (\<lambda>e. pair_of e = pair_of r) es \<and>
      frequency r = length (expenses' r)"
  proof
    fix r assume "r \<in> set rs"
    then obtain k where k: "k \<in> set ks" and r: "r = pattern_of (part k)"
      by (auto simp: rs_def)
    have h: "hd (part k) \<in> set es" "K (hd (part k)) = k"
      using head [OF ks_keys [OF k]] by simp_all
    have "filter (\<lambda>e'. pair_of e' = pair_of (hd (part k))) es = part (K (hd (part k)))"
      using part_pair [OF h(1)] by simp
    then have "filter (\<lambda>e'. pair_of e' = pair_of (hd (part k))) es = part k"
      by (simp only: h(2))
    moreover have "pair_of r = pair_of (hd (part k))"
      by (simp add: r)
    moreover have "expenses' r = part k" "frequency r = length (part k)"
      by (simp_all add: r pattern_of_def)
    ultimately show "expenses' r = filter (\<lambda>e. pair_of e = pair_of r) es \<and>
        frequency r = length (expenses' r)"
      by simp
  qed
  from run dist set_eq members show ?thesis
    by blast
qed

lemmas recurring_defs = identifyRecurringExpenses_def recurring_step_def recurring_key_def
  get_property_def recurring_pattern_def integer_string_def Object_prototype_keys_def Let_def
  jge_def pair_of_def

text \<open>
  The key of a record with a hyphen-free category splits at its first hyphen into the
  category and the string of the amount.
\<close>

lemma hyphen_split:
  assumes "CHR ''-'' \<notin> set s" and "CHR ''-'' \<notin> set s'"
    and "s @ ''-'' @ a = s' @ ''-'' @ a'"
  shows "s = s' \<and> a = a'"
proof -
  have "takeWhile (\<lambda>c. c \<noteq> CHR ''-'') (s @ ''-'' @ a) = s"
    using assms(1) by (induction s) auto
  moreover have "takeWhile (\<lambda>c. c \<noteq> CHR ''-'') (s' @ ''-'' @ a') = s'"
    using assms(2) by (induction s') auto
  ultimately have "s = s'"
    using assms(3) by simp
  then show ?thesis
    using assms(3) by simp
qed

lemma recurring_key_split:
  assumes "hyphen_free (category e)" and "hyphen_free (category e')"
    and "recurring_key ts e = recurring_key ts e'"
  shows "category e = category e' \<and>
         js_toString ts (amount e) = js_toString ts (amount e')"
proof -
  obtain s s' where s: "category e = JStr s" "CHR ''-'' \<notin> set s"
    and s': "category e' = JStr s'" "CHR ''-'' \<notin> set s'"
    using assms(1,2) by (cases "category e"; cases "category e'") auto
  have "s @ ''-'' @ js_toString ts (amount e) = s' @ ''-'' @ js_toString ts (amount e')"
    using assms(3) by (simp add: recurring_key_def s s')
  from hyphen_split [OF s(2) s'(2) this] show ?thesis
    by (simp add: s s')
qed

text \<open>
  The amounts of the data model are finite numbers, and the conversion of a number to a
  string gives numbers that differ strings that differ; then the amounts of a list are
  written differently in the keys.
\<close>

lemma numeric_amounts_inj:
  fixes es :: "'a entry_scheme list"
  assumes "inj ts" and "\<forall>e \<in> set es. \<exists>r. amount e = JNum (Fin r)"
  shows "inj_on (js_toString ts) (amount ` set es)"
proof (rule inj_onI)
  fix a a' assume a: "a \<in> amount ` set es" and a': "a' \<in> amount ` set es"
    and eq: "js_toString ts a = js_toString ts a'"
  have "\<exists>r. a = JNum (Fin r)" and "\<exists>r'. a' = JNum (Fin r')"
    using a a' assms(2) by blast+
  then obtain r r' where r: "a = JNum (Fin r)" "a' = JNum (Fin r')"
    by blast
  then have "ts r = ts r'"
    using eq by simp
  then show "a = a'"
    using assms(1) r by (simp add: inj_def)
qed

text \<open>
  Outside the data model, where a category contains a hyphen, two pairs can share a key:
  (bills-, 1) and (bills, -1) both give the string \<^verbatim>\<open>bills--1\<close>, and with threshold 2
  the function reports them as one pattern of frequency 2. The hypothesis on the
  categories below is what excludes this.
\<close>

lemma recurring_key_collision:
  "identifyRecurringExpenses integer_string
     [\<lparr>amount = JNum (Fin 1), category = JStr ''bills-''\<rparr>,
      \<lparr>amount = JNum (Fin (- 1)), category = JStr ''bills''\<rparr>] (Fin 2)
   = Inr [\<lparr>amount = JNum (Fin 1), category = JStr ''bills-'', frequency = 2,
           expenses' = [\<lparr>amount = JNum (Fin 1), category = JStr ''bills-''\<rparr>,
                        \<lparr>amount = JNum (Fin (- 1)), category = JStr ''bills''\<rparr>]\<rparr>]"
  by (simp add: recurring_defs)

text \<open>
  C8: for every list of records of the data model and every threshold,
  \<open>identifyRecurringExpenses\<close> returns exactly one pattern for each (category, amount)
  pair that occurs at least \<open>threshold\<close> times in the list and none for the others; the
  pattern carries the records of its pair, in list order, and their number as its
  frequency. The records are those of the data model: the category is a string without
  a hyphen, and amounts that differ are written differently in the key, as numbers that
  differ are.
\<close>

theorem recurring_groups:
  fixes es :: "'a entry_scheme list"
  assumes "\<forall>e \<in> set es. hyphen_free (category e)"
    and "inj_on (js_toString ts) (amount ` set es)"
  shows "\<exists>rs. identifyRecurringExpenses ts es th = Inr rs \<and>
           distinct (map pair_of rs) \<and>
           set (map pair_of rs) =
             {p \<in> set (map pair_of es).
                jge (Fin (real (count_list (map pair_of es) p))) th} \<and>
           (\<forall>r \<in> set rs. expenses' r = filter (\<lambda>e. pair_of e = pair_of r) es \<and>
                          frequency r = length (expenses' r))"
proof (rule recurring_groups_of_pairs, intro ballI impI)
  fix e e' assume e: "e \<in> set es" and e': "e' \<in> set es"
    and key: "recurring_key ts e = recurring_key ts e'"
  have split: "category e = category e' \<and>
      js_toString ts (amount e) = js_toString ts (amount e')"
    using assms(1) e e' key by (intro recurring_key_split) simp_all
  then have "amount e = amount e'"
    using assms(2) e e' by (simp add: inj_on_def)
  with split show "pair_of e = pair_of e'"
    by (simp add: pair_of_def)
qed

text \<open>
  The scenario of the specification: three records with category bills and amount 100
  and one unrelated record, threshold 3, give exactly one pattern of frequency 3.
\<close>

theorem recurring_groups_witness:
  "list_all (\<lambda>e. hyphen_free (category e))
     [\<lparr>amount = JNum (Fin 100), category = JStr ''bills'', date = JStr ''2024-01-05''\<rparr>,
      \<lparr>amount = JNum (Fin 20), category = JStr ''food'', date = JStr ''2024-01-09''\<rparr>,
      \<lparr>amount = JNum (Fin 100), category = JStr ''bills'', date = JStr ''2024-02-05''\<rparr>,
      \<lparr>amount = JNum (Fin 100), category = JStr ''bills'', date = JStr ''2024-03-05''\<rparr>] \<and>
   identifyRecurringExpenses integer_string
     [\<lparr>amount = JNum (Fin 100), category = JStr ''bills'', date = JStr ''2024-01-05''\<rparr>,
      \<lparr>amount = JNum (Fin 20), category = JStr ''food'', date = JStr ''2024-01-09''\<rparr>,
      \<lparr>amount = JNum (Fin 100), category = JStr ''bills'', date = JStr ''2024-02-05''\<rparr>,
      \<lparr>amount = JNum (Fin 100), category = JStr ''bills'', date = JStr ''2024-03-05''\<rparr>]
     (Fin 3)
   = Inr [\<lparr>amount = JNum (Fin 100), category = JStr ''bills'', frequency = 3,
           expenses' =
             [\<lparr>amount = JNum (Fin 100), category = JStr ''bills'', date = JStr ''2024-01-05''\<rparr>,
              \<lparr>amount = JNum (Fin 100), category = JStr ''bills'', date = JStr ''2024-02-05''\<rparr>,
              \<lparr>amount = JNum (Fin 100), category = JStr ''bills'', date = JStr ''2024-03-05''\<rparr>]\<rparr>]"
proof -
  let ?es =
    "[\<lparr>amount = JNum (Fin 100), category = JStr ''bills'', date = JStr ''2024-01-05''\<rparr>,
      \<lparr>amount = JNum (Fin 20), category = JStr ''food'', date = JStr ''2024-01-09''\<rparr>,
      \<lparr>amount = JNum (Fin 100), category = JStr ''bills'', date = JStr ''2024-02-05''\<rparr>,
      \<lparr>amount = JNum (Fin 100), category = JStr ''bills'', date = JStr ''2024-03-05''\<rparr>]"
  have free: "\<forall>e \<in> set ?es. hyphen_free (category e)"
    by simp
  have inj: "inj_on (js_toString integer_string) (amount ` set ?es)"
    by (simp add: inj_on_def integer_string_def)
  have "\<exists>rs. identifyRecurringExpenses integer_string ?es (Fin 3) = Inr rs \<and>
      distinct (map pair_of rs)"
    using recurring_groups [where ts = integer_string and th = "Fin 3" and es = ?es,
        OF free inj]
    by blast
  then show ?thesis
    by (simp add: recurring_defs)
qed


section \<open>Date ranges\<close>

lemma msPerDay_pos: "0 < msPerDay"
  by (simp add: msPerDay_def)

lemma int_div_less_iff:
  fixes a q n :: int
  assumes "0 < q"
  shows "a div q < n \<longleftrightarrow> a < n * q"
proof
  assume "a div q < n"
  then have "a div q + 1 \<le> n"
    by simp
  then have "(a div q + 1) * q \<le> n * q"
    using assms by (intro mult_right_mono) auto
  moreover have "(a div q + 1) * q = a div q * q + q"
    by (simp add: algebra_simps)
  moreover have "a div q * q + a mod q = a" and "a mod q < q"
    using assms by simp_all
  ultimately show "a < n * q"
    by linarith
next
  assume lt: "a < n * q"
  show "a div q < n"
  proof (rule ccontr)
    assume "\<not> a div q < n"
    then have "n * q \<le> a div q * q"
      using assms by (intro mult_right_mono) auto
    moreover have "a div q * q + a mod q = a" and "0 \<le> a mod q"
      using assms by simp_all
    ultimately show False
      using lt by linarith
  qed
qed

lemma Day_ge_iff: "d \<le> Day x \<longleftrightarrow> d * msPerDay \<le> x"
  using int_div_less_iff [OF msPerDay_pos, of x d] by (simp add: Day_def) linarith

lemma Day_le_iff: "Day x \<le> d \<longleftrightarrow> x \<le> d * msPerDay + (msPerDay - 1)"
  using int_div_less_iff [OF msPerDay_pos, of x "d + 1"]
  by (simp add: Day_def algebra_simps) linarith








lemma whole_days_fixed_offset: "whole_days (fixed_offset c)"
  unfolding whole_days_def local_day_def LocalTime_def UTC_def fixed_offset_def
    Day_ge_iff Day_le_iff
  by auto






end
